theory Spec2Isabelle
  imports Main "HOL-Library.Char_ord" "HOL-Library.List_Lexorder" "HOL-Library.Multiset"
begin

section \<open>The HTTPProxy source of external-dns (source/httpproxy.go)\<close>

text \<open>
  The file \<^verbatim>\<open>source/httpproxy.go\<close> turns Contour HTTPProxy objects into DNS endpoints.
  Its functions are embedded below one by one. A function returns a pair: its Go result
  (\<open>Inl\<close> for a non-nil error) and the list of effects it performed, in order: log lines,
  calls of the Kubernetes service API and executions of the hostname template.

  Strings are Go strings, that is byte sequences; \<open>char\<close> is a byte, and the order on
  \<open>string\<close> (lexicographic, bytes compared by their code) is the order of Go's \<open><\<close> on
  strings.
\<close>

subsection \<open>Data\<close>

type_synonym annotations = "string \<rightharpoonup> string"

text \<open>A parsed \<^verbatim>\<open>*template.Template\<close> is opaque to this file; it is identified by its text.\<close>

type_synonym template = string

text \<open>The fields of \<^verbatim>\<open>contourapi.HTTPProxy\<close> that the file reads:
  \<^verbatim>\<open>hp.Namespace\<close>, \<^verbatim>\<open>hp.Name\<close>, \<^verbatim>\<open>hp.Annotations\<close>, \<^verbatim>\<open>hp.Spec.VirtualHost\<close> (a pointer,
  \<open>None\<close> for nil) and \<^verbatim>\<open>hp.Status.CurrentStatus\<close>.\<close>

record VirtualHost =
  Fqdn :: string

record HTTPProxy =
  Namespace :: string
  Name :: string
  Annotations :: annotations
  Spec_VirtualHost :: "VirtualHost option"
  Status_CurrentStatus :: string

text \<open>One entry of \<^verbatim>\<open>svc.Status.LoadBalancer.Ingress\<close>.\<close>

record LoadBalancerIngress =
  IP :: string
  Hostname :: string

text \<open>Modelled from the spec: the type \<^verbatim>\<open>endpoint.Endpoint\<close> (package endpoint is another
  package of the repository). The spec's data model gives it a hostname, a record type, a
  list of targets, a TTL (a signed integer), provider-specific key/value pairs, a
  set identifier and a label map.\<close>

record Endpoint =
  DNSName :: string
  Targets :: "string list"
  RecordType :: string
  SetIdentifier :: string
  RecordTTL :: int
  Labels :: "string \<rightharpoonup> string"
  ProviderSpecific :: "string \<rightharpoonup> string"

text \<open>Errors. \<open>Failure\<close> is an error value made by a collaborator (the lister, the service
  API, the template engine, the selector parser, the annotation codec), identified by
  its message. The others are built in this file: by \<^verbatim>\<open>fmt.Errorf\<close> in
  \<^verbatim>\<open>endpointsFromTemplate\<close>, by \<^verbatim>\<open>errors.Errorf\<close> in \<^verbatim>\<open>endpointsFromHttpProxy\<close> and by \<^verbatim>\<open>fmt.Errorf\<close>
  in the constructor.\<close>

datatype error =
    Failure string
  | TemplateFailure string string error
  | InvalidStatus string
  | SyncFailure error

text \<open>The four \<^verbatim>\<open>log.Debugf\<close> lines of \<^verbatim>\<open>Endpoints\<close>, with their arguments.\<close>

datatype message =
    SkipController string string string string
  | SkipNotValid string string
  | NoEndpoints string string
  | Generated string string "Endpoint list"

datatype event =
    LogWarn error
  | LogDebug message
  | ServiceGet string string
  | TemplateExecute template HTTPProxy

type_synonym 'a outcome = "(error + 'a) \<times> event list"

text \<open>The receiver \<^verbatim>\<open>httpProxySource\<close>: its configuration fields. The clients and the
  informer it holds are the cluster below.\<close>

record httpProxySource =
  contourLoadBalancerService :: string
  namespace :: string
  annotationFilter :: string
  fqdnTemplate :: "template option"
  combineFQDNAnnotation :: bool
  ignoreHostnameAnnotation :: bool
  checkHTTPProxyHealth :: bool

text \<open>A \<^verbatim>\<open>labels.Selector\<close> of k8s.io/apimachinery, by the two methods the file calls.\<close>

record Selector =
  Empty :: bool
  Matches :: "annotations \<Rightarrow> bool"

text \<open>The collaborators outside the repository, as they answer during one pass: the
  informer's lister, the service API of the Kubernetes client, \<^verbatim>\<open>Template.Execute\<close> of
  text/template, and the selector functions of apimachinery (\<open>'ls\<close> is its
  \<^verbatim>\<open>LabelSelector\<close>). A service is given by its ingress list. For the constructor there
  are the template parser and the result of waiting for the informer's cache (\<open>None\<close> when
  it has synced in time).\<close>

record 'ls cluster =
  ListHTTPProxies :: "string \<Rightarrow> error + HTTPProxy list"
  GetService :: "string \<Rightarrow> string \<Rightarrow> error + LoadBalancerIngress list"
  Execute :: "template \<Rightarrow> HTTPProxy \<Rightarrow> error + string"
  ParseToLabelSelector :: "string \<Rightarrow> error + 'ls"
  LabelSelectorAsSelector :: "'ls \<Rightarrow> error + Selector"
  ParseTemplate :: "string \<Rightarrow> error + template"
  WaitForCacheSync :: "error option"

text \<open>The constants and helper functions of package source that the file calls and that
  are defined in other files of the package (absent here). They are parameters of every
  function below, so what is proved of the functions holds whatever these helpers
  compute. \<^verbatim>\<open>getTTLFromAnnotations\<close> returns a TTL together with an error or nil.\<close>

record pkg =
  controllerAnnotationKey :: string
  controllerAnnotationValue :: string
  ResourceLabelKey :: string
  getTTLFromAnnotations :: "annotations \<Rightarrow> int \<times> error option"
  getTargetsFromTargetAnnotation :: "annotations \<Rightarrow> string list"
  getProviderSpecificAnnotations :: "annotations \<Rightarrow> (string \<rightharpoonup> string) \<times> string"
  getHostnamesFromAnnotations :: "annotations \<Rightarrow> string list"
  endpointsForHostname ::
    "string \<Rightarrow> string list \<Rightarrow> int \<Rightarrow> (string \<rightharpoonup> string) \<Rightarrow> string \<Rightarrow> Endpoint list"
  parseContourLoadBalancerService :: "string \<Rightarrow> error + string \<times> string"

subsection \<open>The string functions of Go's package strings that the file uses\<close>

text \<open>\<^verbatim>\<open>strings.Replace(s, " ", "", -1)\<close>: every space byte is removed.\<close>

definition Replace_spaces :: "string \<Rightarrow> string" where
  "Replace_spaces s = filter (\<lambda>c. c \<noteq> CHR '' '') s"

text \<open>\<^verbatim>\<open>strings.Split(s, sep)\<close> for a separator of one byte: the pieces between the
  separators, one more than there are separators (so the empty string gives one empty
  piece).\<close>

fun Split :: "string \<Rightarrow> char \<Rightarrow> string list" where
  "Split [] sep = [[]]"
| "Split (c # cs) sep =
     (if c = sep then [] # Split cs sep
      else (case Split cs sep of [] \<Rightarrow> [[c]] | piece # pieces \<Rightarrow> (c # piece) # pieces))"

text \<open>\<^verbatim>\<open>strings.TrimSuffix(s, suffix)\<close>: \<open>s\<close> without the suffix when it ends with it (once),
  \<open>s\<close> otherwise.\<close>

definition TrimSuffix :: "string \<Rightarrow> string \<Rightarrow> string" where
  "TrimSuffix s suffix =
     (if length suffix \<le> length s \<and> drop (length s - length suffix) s = suffix
      then take (length s - length suffix) s else s)"

subsection \<open>targetsFromContourLoadBalancer\<close>

text \<open>The loop over \<^verbatim>\<open>svc.Status.LoadBalancer.Ingress\<close>; \<open>targets\<close> is the slice built so far.\<close>

fun ingressTargets :: "LoadBalancerIngress list \<Rightarrow> string list \<Rightarrow> string list" where
  "ingressTargets [] targets = targets"
| "ingressTargets (lb # rest) targets =
     (let targets = (if IP lb \<noteq> [] then targets @ [IP lb] else targets);
          targets = (if Hostname lb \<noteq> [] then targets @ [Hostname lb] else targets)
      in ingressTargets rest targets)"

text \<open>A failed \<^verbatim>\<open>Get\<close> is logged and leaves the named results \<open>targets\<close> and \<open>err\<close> nil: the
  \<open>err\<close> of the \<^verbatim>\<open>if\<close> statement shadows the result parameter.\<close>

definition targetsFromContourLoadBalancer ::
  "pkg \<Rightarrow> 'ls cluster \<Rightarrow> httpProxySource \<Rightarrow> string list outcome" where
  "targetsFromContourLoadBalancer p k sc =
     (case parseContourLoadBalancerService p (contourLoadBalancerService sc) of
        Inl err \<Rightarrow> (Inl err, [])
      | Inr (lbNamespace, lbName) \<Rightarrow>
          (case GetService k lbNamespace lbName of
             Inl err \<Rightarrow> (Inr [], [ServiceGet lbNamespace lbName, LogWarn err])
           | Inr ingress \<Rightarrow> (Inr (ingressTargets ingress []), [ServiceGet lbNamespace lbName])))"

text \<open>The target resolution that \<^verbatim>\<open>endpointsFromHttpProxy\<close> (lines 251 to 258) and
  \<^verbatim>\<open>endpointsFromTemplate\<close> (lines 186 to 193) both spell out: the targets of the target
  annotation, and the load balancer's when there are none.\<close>

definition resolveTargets ::
  "pkg \<Rightarrow> 'ls cluster \<Rightarrow> httpProxySource \<Rightarrow> annotations \<Rightarrow> string list outcome" where
  "resolveTargets p k sc anns =
     (let targets = getTargetsFromTargetAnnotation p anns
      in if length targets = 0 then targetsFromContourLoadBalancer p k sc
         else (Inr targets, []))"

text \<open>The warning of \<^verbatim>\<open>if err != nil { log.Warn(err) }\<close>.\<close>

definition warn :: "error option \<Rightarrow> event list" where
  "warn err = (case err of None \<Rightarrow> [] | Some e \<Rightarrow> [LogWarn e])"

subsection \<open>endpointsFromHttpProxy\<close>

text \<open>The loop over the hostnames of the hostname annotation; \<open>endpoints\<close> is the slice
  built so far.\<close>

fun hostnameEndpoints ::
  "pkg \<Rightarrow> string list \<Rightarrow> string list \<Rightarrow> int \<Rightarrow> (string \<rightharpoonup> string) \<Rightarrow> string \<Rightarrow>
   Endpoint list \<Rightarrow> Endpoint list" where
  "hostnameEndpoints p [] targets ttl providerSpecific setIdentifier endpoints = endpoints"
| "hostnameEndpoints p (hostname # rest) targets ttl providerSpecific setIdentifier endpoints =
     hostnameEndpoints p rest targets ttl providerSpecific setIdentifier
       (endpoints @ endpointsForHostname p hostname targets ttl providerSpecific setIdentifier)"

definition endpointsFromHttpProxy ::
  "pkg \<Rightarrow> 'ls cluster \<Rightarrow> httpProxySource \<Rightarrow> HTTPProxy \<Rightarrow> Endpoint list outcome" where
  "endpointsFromHttpProxy p k sc hp =
     (if Status_CurrentStatus hp \<noteq> ''valid''
      then (Inr [], [LogWarn (InvalidStatus (Status_CurrentStatus hp))])
      else
        (case getTTLFromAnnotations p (Annotations hp) of (ttl, err) \<Rightarrow>
         (case resolveTargets p k sc (Annotations hp) of
            (Inl err', tr) \<Rightarrow> (Inl err', warn err @ tr)
          | (Inr targets, tr) \<Rightarrow>
             (case getProviderSpecificAnnotations p (Annotations hp) of
                (providerSpecific, setIdentifier) \<Rightarrow>
                  (let endpoints =
                         (case Spec_VirtualHost hp of
                            None \<Rightarrow> []
                          | Some virtualHost \<Rightarrow>
                              if Fqdn virtualHost \<noteq> []
                              then endpointsForHostname p (Fqdn virtualHost) targets ttl
                                     providerSpecific setIdentifier
                              else []);
                       endpoints =
                         (if \<not> ignoreHostnameAnnotation sc
                          then hostnameEndpoints p (getHostnamesFromAnnotations p (Annotations hp))
                                 targets ttl providerSpecific setIdentifier endpoints
                          else endpoints)
                   in (Inr endpoints, warn err @ tr))))))"

subsection \<open>endpointsFromTemplate\<close>

text \<open>The loop over \<open>hostnameList\<close>: each piece loses one trailing period and goes to
  \<^verbatim>\<open>endpointsForHostname\<close>.\<close>

fun templateEndpoints ::
  "pkg \<Rightarrow> string list \<Rightarrow> string list \<Rightarrow> int \<Rightarrow> (string \<rightharpoonup> string) \<Rightarrow> string \<Rightarrow>
   Endpoint list \<Rightarrow> Endpoint list" where
  "templateEndpoints p [] targets ttl providerSpecific setIdentifier endpoints = endpoints"
| "templateEndpoints p (hostname # rest) targets ttl providerSpecific setIdentifier endpoints =
     (let hostname = TrimSuffix hostname ''.''
      in templateEndpoints p rest targets ttl providerSpecific setIdentifier
           (endpoints @ endpointsForHostname p hostname targets ttl providerSpecific setIdentifier))"

definition endpointsFromTemplate ::
  "pkg \<Rightarrow> 'ls cluster \<Rightarrow> httpProxySource \<Rightarrow> template \<Rightarrow> HTTPProxy \<Rightarrow> Endpoint list outcome" where
  "endpointsFromTemplate p k sc tmpl hp =
     (case Execute k tmpl hp of
        Inl err \<Rightarrow>
          (Inl (TemplateFailure (Namespace hp) (Name hp) err), [TemplateExecute tmpl hp])
      | Inr hostnames \<Rightarrow>
         (case getTTLFromAnnotations p (Annotations hp) of (ttl, err) \<Rightarrow>
          (case resolveTargets p k sc (Annotations hp) of
             (Inl err', tr) \<Rightarrow> (Inl err', TemplateExecute tmpl hp # warn err @ tr)
           | (Inr targets, tr) \<Rightarrow>
              (case getProviderSpecificAnnotations p (Annotations hp) of
                 (providerSpecific, setIdentifier) \<Rightarrow>
                   (let hostnameList = Split (Replace_spaces hostnames) CHR '',''
                    in (Inr (templateEndpoints p hostnameList targets ttl
                               providerSpecific setIdentifier []),
                        TemplateExecute tmpl hp # warn err @ tr))))))"

subsection \<open>filterByAnnotations\<close>

definition filterByAnnotations ::
  "'ls cluster \<Rightarrow> httpProxySource \<Rightarrow> HTTPProxy list \<Rightarrow> error + HTTPProxy list" where
  "filterByAnnotations k sc httpProxies =
     (case ParseToLabelSelector k (annotationFilter sc) of
        Inl err \<Rightarrow> Inl err
      | Inr labelSelector \<Rightarrow>
          (case LabelSelectorAsSelector k labelSelector of
             Inl err \<Rightarrow> Inl err
           | Inr selector \<Rightarrow>
               if Empty selector then Inr httpProxies
               else Inr (filter (\<lambda>hp. Matches selector (Annotations hp)) httpProxies)))"

subsection \<open>setResourceLabel\<close>

text \<open>\<^verbatim>\<open>fmt.Sprintf("hp/%s/%s", hp.Namespace, hp.Name)\<close>.\<close>

definition resourceLabel :: "HTTPProxy \<Rightarrow> string" where
  "resourceLabel hp = ''hp/'' @ Namespace hp @ ''/'' @ Name hp"

text \<open>The Go function writes the label into the label map of each endpoint it is given. The
  endpoints are the ones \<^verbatim>\<open>endpointsForHostname\<close> has just allocated for this resource, each
  with a label map of its own, so the update in place is the update of the values.\<close>

definition setResourceLabel :: "pkg \<Rightarrow> HTTPProxy \<Rightarrow> Endpoint list \<Rightarrow> Endpoint list" where
  "setResourceLabel p hp endpoints =
     map (\<lambda>ep. ep\<lparr>Labels := (Labels ep)(ResourceLabelKey p \<mapsto> resourceLabel hp)\<rparr>) endpoints"

subsection \<open>Endpoints\<close>

text \<open>The body of the loop over the resources, after the two checks that skip a resource
  (lines 134 to 160). Its result is the list the loop appends to \<open>endpoints\<close>: empty where
  the Go code says \<^verbatim>\<open>continue\<close>; \<open>Inl\<close> where it returns the error.\<close>

definition Endpoints_generate ::
  "pkg \<Rightarrow> 'ls cluster \<Rightarrow> httpProxySource \<Rightarrow> HTTPProxy \<Rightarrow> Endpoint list outcome" where
  "Endpoints_generate p k sc hp =
     (case endpointsFromHttpProxy p k sc hp of
        (Inl err, tr) \<Rightarrow> (Inl err, tr)
      | (Inr hpEndpoints, tr) \<Rightarrow>
          (case (if (combineFQDNAnnotation sc \<or> length hpEndpoints = 0) \<and> fqdnTemplate sc \<noteq> None
                 then (case endpointsFromTemplate p k sc (the (fqdnTemplate sc)) hp of
                         (Inl err, tr') \<Rightarrow> (Inl err, tr')
                       | (Inr tmplEndpoints, tr') \<Rightarrow>
                           (if combineFQDNAnnotation sc
                            then (Inr (hpEndpoints @ tmplEndpoints), tr')
                            else (Inr tmplEndpoints, tr')))
                 else (Inr hpEndpoints, []))
           of
             (Inl err, tr') \<Rightarrow> (Inl err, tr @ tr')
           | (Inr hpEndpoints, tr') \<Rightarrow>
               (if length hpEndpoints = 0
                then (Inr [], tr @ tr' @ [LogDebug (NoEndpoints (Namespace hp) (Name hp))])
                else (Inr (setResourceLabel p hp hpEndpoints),
                      tr @ tr' @ [LogDebug (Generated (Namespace hp) (Name hp) hpEndpoints)]))))"

text \<open>The whole body of the loop (lines 122 to 161) for one resource.\<close>

definition Endpoints_body ::
  "pkg \<Rightarrow> 'ls cluster \<Rightarrow> httpProxySource \<Rightarrow> HTTPProxy \<Rightarrow> Endpoint list outcome" where
  "Endpoints_body p k sc hp =
     (let ok = (Annotations hp (controllerAnnotationKey p) \<noteq> None);
          controller = (case Annotations hp (controllerAnnotationKey p) of
                          None \<Rightarrow> [] | Some v \<Rightarrow> v)
      in if ok \<and> controller \<noteq> controllerAnnotationValue p
         then (Inr [], [LogDebug (SkipController (Namespace hp) (Name hp) controller
                                    (controllerAnnotationValue p))])
         else if Status_CurrentStatus hp \<noteq> ''valid''
         then (Inr [], [LogDebug (SkipNotValid (Namespace hp) (Name hp))])
         else Endpoints_generate p k sc hp)"

text \<open>The loop \<^verbatim>\<open>for _, hp := range hps\<close>; \<open>endpoints\<close> is the slice built so far. An error
  leaves the loop and the function.\<close>

fun Endpoints_loop ::
  "pkg \<Rightarrow> 'ls cluster \<Rightarrow> httpProxySource \<Rightarrow> HTTPProxy list \<Rightarrow> Endpoint list \<Rightarrow>
   Endpoint list outcome" where
  "Endpoints_loop p k sc [] endpoints = (Inr endpoints, [])"
| "Endpoints_loop p k sc (hp # hps) endpoints =
     (case Endpoints_body p k sc hp of
        (Inl err, tr) \<Rightarrow> (Inl err, tr)
      | (Inr hpEndpoints, tr) \<Rightarrow>
          (case Endpoints_loop p k sc hps (endpoints @ hpEndpoints) of
             (res, tr') \<Rightarrow> (res, tr @ tr')))"

text \<open>Modelled from the spec: \<^verbatim>\<open>sort.Sort(ep.Targets)\<close> uses the ordering methods of
  \<^verbatim>\<open>endpoint.Targets\<close>, which are in the absent package endpoint. The spec calls the
  result the canonical sort order of the target list: the targets in ascending order as
  strings.\<close>

definition sortTargets :: "Endpoint \<Rightarrow> Endpoint" where
  "sortTargets ep = ep\<lparr>Targets := sort (Targets ep)\<rparr>"

definition Endpoints :: "pkg \<Rightarrow> 'ls cluster \<Rightarrow> httpProxySource \<Rightarrow> Endpoint list outcome" where
  "Endpoints p k sc =
     (case ListHTTPProxies k (namespace sc) of
        Inl err \<Rightarrow> (Inl err, [])
      | Inr hps \<Rightarrow>
          (case filterByAnnotations k sc hps of
             Inl err \<Rightarrow> (Inl err, [])
           | Inr hps \<Rightarrow>
               (case Endpoints_loop p k sc hps [] of
                  (Inl err, tr) \<Rightarrow> (Inl err, tr)
                | (Inr endpoints, tr) \<Rightarrow> (Inr (map sortTargets endpoints), tr))))"

subsection \<open>NewContourHTTPProxySource\<close>

text \<open>The constructor parses the template when one is given, rejects a service locator that
  \<^verbatim>\<open>parseContourLoadBalancerService\<close> rejects, waits for the cache of the informer and
  builds the source. It does not copy its last argument: \<^verbatim>\<open>checkHTTPProxyHealth\<close> keeps
  Go's zero value.\<close>

definition NewContourHTTPProxySource ::
  "pkg \<Rightarrow> 'ls cluster \<Rightarrow> string \<Rightarrow> string \<Rightarrow> string \<Rightarrow> string \<Rightarrow> bool \<Rightarrow> bool \<Rightarrow> bool \<Rightarrow>
   error + httpProxySource" where
  "NewContourHTTPProxySource p k contourLoadBalancerService' namespace' annotationFilter'
     fqdnTemplate' combineFqdnAnnotation ignoreHostnameAnnotation' checkHTTPProxyHealth' =
     (case (if fqdnTemplate' \<noteq> [] then map_sum id Some (ParseTemplate k fqdnTemplate')
            else Inr None) of
        Inl err \<Rightarrow> Inl err
      | Inr tmpl \<Rightarrow>
          (case parseContourLoadBalancerService p contourLoadBalancerService' of
             Inl err \<Rightarrow> Inl err
           | Inr _ \<Rightarrow>
               (case WaitForCacheSync k of
                  Some err \<Rightarrow> Inl (SyncFailure err)
                | None \<Rightarrow>
                    Inr \<lparr>contourLoadBalancerService = contourLoadBalancerService',
                         namespace = namespace',
                         annotationFilter = annotationFilter',
                         fqdnTemplate = tmpl,
                         combineFQDNAnnotation = combineFqdnAnnotation,
                         ignoreHostnameAnnotation = ignoreHostnameAnnotation',
                         checkHTTPProxyHealth = False\<rparr>)))"

subsection \<open>The helpers of the package, as the specification describes them\<close>

text \<open>The helpers below are not defined in \<^verbatim>\<open>httpproxy.go\<close>. They serve where a statement
  is about what a helper returns, and as the concrete helpers of the examples. Their
  annotation keys, the TTL parser and the test for an IP literal are parameters.\<close>

record codec =
  ttlAnnotationKey :: string
  targetAnnotationKey :: string
  hostnameAnnotationKey :: string
  setIdentifierAnnotationKey :: string
  providerSpecificPrefix :: string
  controllerKey :: string
  controllerValue :: string
  resourceKey :: string
  parseTTL :: "string \<Rightarrow> nat option"
  isIPLiteral :: "string \<Rightarrow> bool"

text \<open>Modelled from the spec: the TTL of an endpoint is a signed integer, -1 meaning
  unset.\<close>

definition ttlUnset :: int where
  "ttlUnset = - 1"

text \<open>Modelled from the spec: \<^verbatim>\<open>getTTLFromAnnotations\<close> (absent helper). TTL extraction:
  parse a well-known annotation key as a non-negative duration/integer; on parse failure
  the TTL is unset and the failure is reported for logging.\<close>

definition spec_getTTLFromAnnotations :: "codec \<Rightarrow> annotations \<Rightarrow> int \<times> error option" where
  "spec_getTTLFromAnnotations c anns =
     (case anns (ttlAnnotationKey c) of
        None \<Rightarrow> (ttlUnset, None)
      | Some v \<Rightarrow>
          (case parseTTL c v of
             None \<Rightarrow> (ttlUnset, Some (Failure (''invalid TTL: '' @ v)))
           | Some n \<Rightarrow> (int n, None)))"

text \<open>Modelled from the spec: \<^verbatim>\<open>getTargetsFromTargetAnnotation\<close> (absent helper).
  Target-list extraction: parse a comma/whitespace-delimited annotation value into an
  ordered target list; empty or absent gives the empty list.\<close>

definition spec_getTargetsFromTargetAnnotation :: "codec \<Rightarrow> annotations \<Rightarrow> string list" where
  "spec_getTargetsFromTargetAnnotation c anns =
     (case anns (targetAnnotationKey c) of
        None \<Rightarrow> []
      | Some v \<Rightarrow> filter (\<lambda>t. t \<noteq> []) (Split (Replace_spaces v) CHR '',''))"

text \<open>Modelled from the spec: \<^verbatim>\<open>getProviderSpecificAnnotations\<close> (absent helper). Scan all
  annotations under a recognized prefix, stripping the prefix to form output keys;
  extract a distinguished set-identifier annotation separately.\<close>

definition spec_getProviderSpecificAnnotations ::
  "codec \<Rightarrow> annotations \<Rightarrow> (string \<rightharpoonup> string) \<times> string" where
  "spec_getProviderSpecificAnnotations c anns =
     (\<lambda>key. anns (providerSpecificPrefix c @ key),
      case anns (setIdentifierAnnotationKey c) of None \<Rightarrow> [] | Some v \<Rightarrow> v)"

text \<open>Modelled from the spec: \<^verbatim>\<open>getHostnamesFromAnnotations\<close> (absent helper).
  Alternate-hostnames extraction: parse a delimited annotation value into a list of
  hostnames.\<close>

definition spec_getHostnamesFromAnnotations :: "codec \<Rightarrow> annotations \<Rightarrow> string list" where
  "spec_getHostnamesFromAnnotations c anns =
     (case anns (hostnameAnnotationKey c) of
        None \<Rightarrow> []
      | Some v \<Rightarrow> filter (\<lambda>h. h \<noteq> []) (Split (Replace_spaces v) CHR '',''))"

text \<open>Modelled from the spec: \<^verbatim>\<open>endpointsForHostname\<close> (absent helper), the endpoint
  assembler. One endpoint per target-shape class (IP literals, hostnames) of the target
  list, none for an empty class; the record type follows the shape; the label map is
  new.\<close>

definition spec_endpointsForHostname ::
  "codec \<Rightarrow> string \<Rightarrow> string list \<Rightarrow> int \<Rightarrow> (string \<rightharpoonup> string) \<Rightarrow> string \<Rightarrow> Endpoint list" where
  "spec_endpointsForHostname c hostname targets ttl providerSpecific setIdentifier =
     (let aTargets = filter (isIPLiteral c) targets;
          cnameTargets = filter (\<lambda>t. \<not> isIPLiteral c t) targets
      in (if aTargets \<noteq> []
          then [\<lparr>DNSName = hostname, Targets = aTargets, RecordType = ''A'',
                 SetIdentifier = setIdentifier, RecordTTL = ttl, Labels = Map.empty,
                 ProviderSpecific = providerSpecific\<rparr>]
          else []) @
         (if cnameTargets \<noteq> []
          then [\<lparr>DNSName = hostname, Targets = cnameTargets, RecordType = ''CNAME'',
                 SetIdentifier = setIdentifier, RecordTTL = ttl, Labels = Map.empty,
                 ProviderSpecific = providerSpecific\<rparr>]
          else []))"

text \<open>Modelled from the spec: \<^verbatim>\<open>parseContourLoadBalancerService\<close> (absent helper). The
  locator is one string "namespace/name"; a missing separator, or more than one, is an
  error.\<close>

definition spec_parseContourLoadBalancerService :: "string \<Rightarrow> error + string \<times> string" where
  "spec_parseContourLoadBalancerService service =
     (case Split service CHR ''/'' of
        [lbNamespace, lbName] \<Rightarrow> Inr (lbNamespace, lbName)
      | _ \<Rightarrow> Inl (Failure (''invalid contour load balancer service: '' @ service)))"

text \<open>Modelled from the spec: the helpers above, as the helpers the file calls.\<close>

definition spec_pkg :: "codec \<Rightarrow> pkg" where
  "spec_pkg c =
     \<lparr>controllerAnnotationKey = controllerKey c,
      controllerAnnotationValue = controllerValue c,
      ResourceLabelKey = resourceKey c,
      getTTLFromAnnotations = spec_getTTLFromAnnotations c,
      getTargetsFromTargetAnnotation = spec_getTargetsFromTargetAnnotation c,
      getProviderSpecificAnnotations = spec_getProviderSpecificAnnotations c,
      getHostnamesFromAnnotations = spec_getHostnamesFromAnnotations c,
      endpointsForHostname = spec_endpointsForHostname c,
      parseContourLoadBalancerService = spec_parseContourLoadBalancerService\<rparr>"

subsection \<open>Concrete inputs for the examples\<close>

text \<open>A TTL parser for decimal numerals and a test for dotted decimal addresses.\<close>

fun digitsValue :: "string \<Rightarrow> nat \<Rightarrow> nat option" where
  "digitsValue [] acc = Some acc"
| "digitsValue (c # cs) acc =
     (if CHR ''0'' \<le> c \<and> c \<le> CHR ''9''
      then digitsValue cs (10 * acc + (of_char c - of_char CHR ''0''))
      else None)"

definition decimalTTL :: "string \<Rightarrow> nat option" where
  "decimalTTL s = (if s = [] then None else digitsValue s 0)"

definition dottedDecimal :: "string \<Rightarrow> bool" where
  "dottedDecimal s = (s \<noteq> [] \<and> list_all (\<lambda>c. c = CHR ''.'' \<or> (CHR ''0'' \<le> c \<and> c \<le> CHR ''9'')) s)"

definition example_codec :: codec where
  "example_codec =
     \<lparr>ttlAnnotationKey = ''ttl'', targetAnnotationKey = ''target'',
      hostnameAnnotationKey = ''hostname'', setIdentifierAnnotationKey = ''set-identifier'',
      providerSpecificPrefix = ''aws-'', controllerKey = ''controller'',
      controllerValue = ''dns-controller'', resourceKey = ''resource'',
      parseTTL = decimalTTL, isIPLiteral = dottedDecimal\<rparr>"

text \<open>A cluster with the resources \<open>hps\<close>, one load balancer service \<^verbatim>\<open>heptio-contour/contour\<close>
  with the ingress list \<open>ingress\<close> (every other lookup fails), a template engine that
  renders by \<open>render\<close>, and a selector library that knows the empty expression and
  expressions \<^verbatim>\<open>key=value\<close>.\<close>

definition example_selector :: "string \<Rightarrow> error + Selector" where
  "example_selector expr =
     (case Split expr CHR ''='' of
        [key, v] \<Rightarrow> Inr \<lparr>Empty = False, Matches = (\<lambda>anns. anns key = Some v)\<rparr>
      | _ \<Rightarrow> Inl (Failure ''invalid selector''))"

definition example_cluster ::
  "HTTPProxy list \<Rightarrow> (error + LoadBalancerIngress list) \<Rightarrow> (HTTPProxy \<Rightarrow> error + string) \<Rightarrow>
   string cluster" where
  "example_cluster hps service render =
     \<lparr>ListHTTPProxies = (\<lambda>ns. Inr hps),
      GetService = (\<lambda>ns name. if ns = ''heptio-contour'' \<and> name = ''contour'' then service
                               else Inl (Failure ''not found'')),
      Execute = (\<lambda>tmpl hp. render hp),
      ParseToLabelSelector = (\<lambda>expr. if CHR ''!'' \<in> set expr then Inl (Failure ''parse error'')
                                      else Inr expr),
      LabelSelectorAsSelector = (\<lambda>expr. if expr = [] then Inr \<lparr>Empty = True, Matches = (\<lambda>anns. True)\<rparr>
                                         else example_selector expr),
      ParseTemplate = (\<lambda>text. Inr text),
      WaitForCacheSync = None\<rparr>"

definition example_source :: "template option \<Rightarrow> bool \<Rightarrow> string \<Rightarrow> httpProxySource" where
  "example_source tmpl combine annFilter =
     \<lparr>contourLoadBalancerService = ''heptio-contour/contour'', namespace = [],
      annotationFilter = annFilter, fqdnTemplate = tmpl, combineFQDNAnnotation = combine,
      ignoreHostnameAnnotation = False, checkHTTPProxyHealth = False\<rparr>"

definition example_proxy :: "string \<Rightarrow> string \<Rightarrow> (string \<times> string) list \<Rightarrow> string \<Rightarrow> HTTPProxy" where
  "example_proxy name fqdn anns status =
     \<lparr>Namespace = ''default'', Name = name, Annotations = map_of anns,
      Spec_VirtualHost = Some \<lparr>Fqdn = fqdn\<rparr>, Status_CurrentStatus = status\<rparr>"

subsection \<open>What a resource contributes\<close>

text \<open>The endpoints that one resource contributes to the list \<^verbatim>\<open>Endpoints\<close> returns: what the
  body of the loop appends for it, each with its targets sorted by the final loop.\<close>

definition contribution ::
  "pkg \<Rightarrow> 'ls cluster \<Rightarrow> httpProxySource \<Rightarrow> HTTPProxy \<Rightarrow> Endpoint list" where
  "contribution p k sc hp =
     (case fst (Endpoints_body p k sc hp) of
        Inl err \<Rightarrow> []
      | Inr hpEndpoints \<Rightarrow> map sortTargets hpEndpoints)"

subsection \<open>Joining strings\<close>

text \<open>\<^verbatim>\<open>strings.Join\<close> for a separator of one byte. The file does not call it; it states what
  \<open>Split\<close> computes: the pieces that, joined by the separator, give the string back.\<close>

fun Join :: "string list \<Rightarrow> char \<Rightarrow> string" where
  "Join [] sep = []"
| "Join [piece] sep = piece"
| "Join (piece # pieces) sep = piece @ sep # Join pieces sep"

section \<open>Properties\<close>

text \<open>The unfolding rules that evaluate the helpers of the specification and the example
  inputs.\<close>

lemmas example_simps =
  spec_pkg_def spec_getTTLFromAnnotations_def spec_getTargetsFromTargetAnnotation_def
  spec_getProviderSpecificAnnotations_def spec_getHostnamesFromAnnotations_def
  spec_endpointsForHostname_def spec_parseContourLoadBalancerService_def
  example_codec_def example_cluster_def example_source_def example_proxy_def example_selector_def
  decimalTTL_def dottedDecimal_def ttlUnset_def Replace_spaces_def TrimSuffix_def Let_def

lemmas model_simps =
  Endpoints_def Endpoints_body_def Endpoints_generate_def endpointsFromHttpProxy_def
  endpointsFromTemplate_def resolveTargets_def targetsFromContourLoadBalancer_def
  filterByAnnotations_def setResourceLabel_def resourceLabel_def sortTargets_def warn_def

subsection \<open>The ingress loop\<close>

text \<open>The loop over the ingress list appends, entry by entry, the IP address when it is
  not empty and then the hostname when it is not empty.\<close>

lemma ingressTargets_append:
  "ingressTargets ingress targets =
     targets @ concat (map (\<lambda>lb. (if IP lb \<noteq> [] then [IP lb] else []) @
                                 (if Hostname lb \<noteq> [] then [Hostname lb] else [])) ingress)"
  by (induction ingress arbitrary: targets) (simp_all add: Let_def)

subsection \<open>The constructor\<close>

text \<open>A source that the constructor returns has a service locator that parses.\<close>

lemma NewContourHTTPProxySource_service:
  assumes "NewContourHTTPProxySource p k service ns annFilter tmpl combine ignore health = Inr sc"
  shows "\<exists>lbNamespace lbName.
           parseContourLoadBalancerService p (contourLoadBalancerService sc) = Inr (lbNamespace, lbName)"
  using assms
  by (auto simp: NewContourHTTPProxySource_def split: sum.splits option.splits if_splits)

subsection \<open>Effects and shape of the functions\<close>

text \<open>Target resolution and the primary path only warn and call the service API; the
  template path executes the template first, once.\<close>

lemma resolveTargets_events:
  "e \<in> set (snd (resolveTargets p k sc anns)) \<Longrightarrow>
     (\<exists>err. e = LogWarn err) \<or> (\<exists>lbNamespace lbName. e = ServiceGet lbNamespace lbName)"
  by (auto simp: resolveTargets_def targetsFromContourLoadBalancer_def Let_def
           split: sum.splits prod.splits if_splits)

lemma warn_events: "e \<in> set (warn err) \<Longrightarrow> \<exists>x. e = LogWarn x"
  by (cases err) (simp_all add: warn_def)

lemma endpointsFromHttpProxy_events:
  "e \<in> set (snd (endpointsFromHttpProxy p k sc hp)) \<Longrightarrow>
     (\<exists>err. e = LogWarn err) \<or> (\<exists>lbNamespace lbName. e = ServiceGet lbNamespace lbName)"
proof -
  assume a: "e \<in> set (snd (endpointsFromHttpProxy p k sc hp))"
  obtain r tr where rt: "resolveTargets p k sc (Annotations hp) = (r, tr)"
    by (cases "resolveTargets p k sc (Annotations hp)")
  obtain ttl err where t: "getTTLFromAnnotations p (Annotations hp) = (ttl, err)"
    by (cases "getTTLFromAnnotations p (Annotations hp)")
  from a rt t have "e = LogWarn (InvalidStatus (Status_CurrentStatus hp)) \<or> e \<in> set (warn err) \<or> e \<in> set tr"
    by (auto simp: endpointsFromHttpProxy_def Let_def split: if_splits sum.splits prod.splits)
  moreover have "e \<in> set tr \<Longrightarrow> ?thesis"
    using resolveTargets_events [of e p k sc "Annotations hp"] rt by simp
  ultimately show ?thesis using warn_events by blast
qed

lemma endpointsFromTemplate_events:
  "\<exists>rest. snd (endpointsFromTemplate p k sc tmpl hp) = TemplateExecute tmpl hp # rest \<and>
     (\<forall>e \<in> set rest. (\<exists>err. e = LogWarn err) \<or> (\<exists>lbNamespace lbName. e = ServiceGet lbNamespace lbName))"
proof -
  obtain r tr where rt: "resolveTargets p k sc (Annotations hp) = (r, tr)"
    by (cases "resolveTargets p k sc (Annotations hp)")
  obtain ttl err where t: "getTTLFromAnnotations p (Annotations hp) = (ttl, err)"
    by (cases "getTTLFromAnnotations p (Annotations hp)")
  have tr: "\<forall>e \<in> set (warn err @ tr). (\<exists>err. e = LogWarn err) \<or> (\<exists>lbNamespace lbName. e = ServiceGet lbNamespace lbName)"
    using resolveTargets_events [of _ p k sc "Annotations hp"] rt warn_events by fastforce
  have "snd (endpointsFromTemplate p k sc tmpl hp) = [TemplateExecute tmpl hp] \<or>
        snd (endpointsFromTemplate p k sc tmpl hp) = TemplateExecute tmpl hp # warn err @ tr"
    using rt t by (auto simp: endpointsFromTemplate_def Let_def split: sum.splits prod.splits)
  with tr show ?thesis by auto
qed

lemma endpointsFromTemplate_failure:
  "Execute k tmpl hp = Inl err \<Longrightarrow>
     fst (endpointsFromTemplate p k sc tmpl hp) = Inl (TemplateFailure (Namespace hp) (Name hp) err)"
  by (simp add: endpointsFromTemplate_def)

text \<open>The loop body after the two checks, by the result of the primary path and of the
  template path.\<close>

lemma Endpoints_generate_error:
  "endpointsFromHttpProxy p k sc hp = (Inl err, tr) \<Longrightarrow> Endpoints_generate p k sc hp = (Inl err, tr)"
  by (simp add: Endpoints_generate_def)

lemma Endpoints_generate_plain:
  assumes "endpointsFromHttpProxy p k sc hp = (Inr hpEndpoints, tr)"
    and "\<not> ((combineFQDNAnnotation sc \<or> hpEndpoints = []) \<and> fqdnTemplate sc \<noteq> None)"
  shows "Endpoints_generate p k sc hp =
     (Inr (setResourceLabel p hp hpEndpoints),
      tr @ [LogDebug (if hpEndpoints = [] then NoEndpoints (Namespace hp) (Name hp)
                      else Generated (Namespace hp) (Name hp) hpEndpoints)])"
  using assms by (auto simp: Endpoints_generate_def setResourceLabel_def)

lemma Endpoints_generate_template_error:
  assumes "endpointsFromHttpProxy p k sc hp = (Inr hpEndpoints, tr)"
    and "combineFQDNAnnotation sc \<or> hpEndpoints = []" and "fqdnTemplate sc = Some tmpl"
    and "endpointsFromTemplate p k sc tmpl hp = (Inl err, tr')"
  shows "Endpoints_generate p k sc hp = (Inl err, tr @ tr')"
  using assms by (auto simp: Endpoints_generate_def)

lemma Endpoints_generate_template:
  assumes "endpointsFromHttpProxy p k sc hp = (Inr hpEndpoints, tr)"
    and "combineFQDNAnnotation sc \<or> hpEndpoints = []" and "fqdnTemplate sc = Some tmpl"
    and "endpointsFromTemplate p k sc tmpl hp = (Inr tmplEndpoints, tr')"
  shows "Endpoints_generate p k sc hp =
     (Inr (setResourceLabel p hp (hpEndpoints @ tmplEndpoints)),
      tr @ tr' @ [LogDebug (if hpEndpoints @ tmplEndpoints = [] then NoEndpoints (Namespace hp) (Name hp)
                            else Generated (Namespace hp) (Name hp) (hpEndpoints @ tmplEndpoints))])"
  using assms by (auto simp: Endpoints_generate_def setResourceLabel_def)

subsection \<open>The loop over the resources\<close>

lemma fst_Endpoints_loop_Cons:
  "fst (Endpoints_loop p k sc (hp # hps) endpoints) =
     (case fst (Endpoints_body p k sc hp) of
        Inl err \<Rightarrow> Inl err
      | Inr hpEndpoints \<Rightarrow> fst (Endpoints_loop p k sc hps (endpoints @ hpEndpoints)))"
  by (cases "Endpoints_body p k sc hp") (auto split: sum.splits prod.splits)

lemma snd_Endpoints_loop_Cons:
  "snd (Endpoints_loop p k sc (hp # hps) endpoints) =
     (case fst (Endpoints_body p k sc hp) of
        Inl err \<Rightarrow> snd (Endpoints_body p k sc hp)
      | Inr hpEndpoints \<Rightarrow>
          snd (Endpoints_body p k sc hp) @ snd (Endpoints_loop p k sc hps (endpoints @ hpEndpoints)))"
  by (cases "Endpoints_body p k sc hp") (auto split: sum.splits prod.splits)

lemma Endpoints_loop_append:
  "fst (Endpoints_loop p k sc (xs @ ys) endpoints) =
     (case fst (Endpoints_loop p k sc xs endpoints) of
        Inl err \<Rightarrow> Inl err
      | Inr endpoints' \<Rightarrow> fst (Endpoints_loop p k sc ys endpoints'))"
proof (induction xs arbitrary: endpoints)
  case Nil
  then show ?case by simp
next
  case (Cons hp xs)
  show ?case
    by (cases "fst (Endpoints_body p k sc hp)")
       (simp_all only: append_Cons fst_Endpoints_loop_Cons Cons.IH sum.case)
qed

lemma Endpoints_body_skip:
  assumes "(\<exists>controller. Annotations hp (controllerAnnotationKey p) = Some controller \<and>
              controller \<noteq> controllerAnnotationValue p)
           \<or> Status_CurrentStatus hp \<noteq> ''valid''"
  shows "\<exists>m. Endpoints_body p k sc hp = (Inr [], [LogDebug m])"
  using assms by (auto simp: Endpoints_body_def Let_def)

text \<open>The effects of the loop body after the two checks.\<close>

lemma Endpoints_generate_events:
  assumes "e \<in> set (snd (Endpoints_generate p k sc hp))"
  shows "(\<exists>err. e = LogWarn err) \<or> (\<exists>lbNamespace lbName. e = ServiceGet lbNamespace lbName)
       \<or> e = TemplateExecute (the (fqdnTemplate sc)) hp
       \<or> (\<exists>es. e = LogDebug (NoEndpoints (Namespace hp) (Name hp))
              \<or> e = LogDebug (Generated (Namespace hp) (Name hp) es))"
proof -
  obtain r tr where hpr: "endpointsFromHttpProxy p k sc hp = (r, tr)"
    by (cases "endpointsFromHttpProxy p k sc hp")
  have tr: "e \<in> set tr \<Longrightarrow> ?thesis"
    using endpointsFromHttpProxy_events [of e p k sc hp] hpr by auto
  show ?thesis
  proof (cases r)
    case (Inl err)
    with hpr assms tr show ?thesis by (simp add: Endpoints_generate_error)
  next
    case (Inr hpEndpoints)
    show ?thesis
    proof (cases "(combineFQDNAnnotation sc \<or> hpEndpoints = []) \<and> fqdnTemplate sc \<noteq> None")
      case False
      from Endpoints_generate_plain [OF hpr [unfolded Inr] False] assms tr
      show ?thesis by (auto split: if_splits)
    next
      case True
      then obtain tmpl where tm: "fqdnTemplate sc = Some tmpl" by auto
      obtain r' tr' where tp: "endpointsFromTemplate p k sc tmpl hp = (r', tr')"
        by (cases "endpointsFromTemplate p k sc tmpl hp")
      have tr': "e \<in> set tr' \<Longrightarrow> ?thesis"
        using endpointsFromTemplate_events [of p k sc tmpl hp] tp tm by auto
      show ?thesis
      proof (cases r')
        case (Inl err)
        from Endpoints_generate_template_error [OF hpr [unfolded Inr] _ tm tp [unfolded Inl]] True
          assms tr tr'
        show ?thesis by auto
      next
        case r': (Inr tmplEndpoints)
        from Endpoints_generate_template [OF hpr [unfolded Inr] _ tm tp [unfolded r']] True
          assms tr tr'
        show ?thesis by (auto split: if_splits)
      qed
    qed
  qed
qed

text \<open>A resource that passes the two checks goes to the generation of its endpoints.\<close>

lemma Endpoints_body_eligible:
  assumes "\<forall>controller. Annotations hp (controllerAnnotationKey p) = Some controller \<longrightarrow>
              controller = controllerAnnotationValue p"
    and "Status_CurrentStatus hp = ''valid''"
  shows "Endpoints_body p k sc hp = Endpoints_generate p k sc hp"
  using assms by (auto simp: Endpoints_body_def Let_def)

text \<open>A template execution that fails makes the loop body, and with it the loop, return the
  error of \<^verbatim>\<open>endpointsFromTemplate\<close>.\<close>

lemma Endpoints_generate_failure:
  assumes ex: "TemplateExecute tmpl h \<in> set (snd (Endpoints_generate p k sc hp))"
    and fail: "Execute k tmpl h = Inl err"
  shows "fst (Endpoints_generate p k sc hp) = Inl (TemplateFailure (Namespace h) (Name h) err)"
proof -
  obtain r tr where hpr: "endpointsFromHttpProxy p k sc hp = (r, tr)"
    by (cases "endpointsFromHttpProxy p k sc hp")
  have tr: "TemplateExecute tmpl h \<notin> set tr"
    using endpointsFromHttpProxy_events [of "TemplateExecute tmpl h" p k sc hp] hpr by auto
  show ?thesis
  proof (cases r)
    case (Inl e)
    with hpr ex tr show ?thesis by (simp add: Endpoints_generate_error)
  next
    case (Inr hpEndpoints)
    show ?thesis
    proof (cases "(combineFQDNAnnotation sc \<or> hpEndpoints = []) \<and> fqdnTemplate sc \<noteq> None")
      case False
      from Endpoints_generate_plain [OF hpr [unfolded Inr] False] ex tr
      show ?thesis by simp
    next
      case True
      then obtain t where tm: "fqdnTemplate sc = Some t" by auto
      obtain r' tr' where tp: "endpointsFromTemplate p k sc t hp = (r', tr')"
        by (cases "endpointsFromTemplate p k sc t hp")
      have in_tr': "TemplateExecute tmpl h \<in> set tr'"
      proof (cases r')
        case (Inl e)
        from Endpoints_generate_template_error [OF hpr [unfolded Inr] _ tm tp [unfolded Inl]] True ex tr
        show ?thesis by auto
      next
        case r': (Inr tmplEndpoints)
        from Endpoints_generate_template [OF hpr [unfolded Inr] _ tm tp [unfolded r']] True ex tr
        show ?thesis by auto
      qed
      then have same: "tmpl = t \<and> h = hp"
        using endpointsFromTemplate_events [of p k sc t hp] tp by auto
      with fail have "fst (endpointsFromTemplate p k sc t hp) =
          Inl (TemplateFailure (Namespace hp) (Name hp) err)"
        by (simp add: endpointsFromTemplate_failure)
      with tp have "r' = Inl (TemplateFailure (Namespace hp) (Name hp) err)" by simp
      from Endpoints_generate_template_error [OF hpr [unfolded Inr] _ tm tp [unfolded this]] True same
      show ?thesis by auto
    qed
  qed
qed

lemma Endpoints_body_failure:
  assumes ex: "TemplateExecute tmpl h \<in> set (snd (Endpoints_body p k sc hp))"
    and fail: "Execute k tmpl h = Inl err"
  shows "fst (Endpoints_body p k sc hp) = Inl (TemplateFailure (Namespace h) (Name h) err)"
proof (cases "Endpoints_body p k sc hp = Endpoints_generate p k sc hp")
  case True
  with ex fail show ?thesis by (simp add: Endpoints_generate_failure)
next
  case False
  then have "\<exists>m. Endpoints_body p k sc hp = (Inr [], [LogDebug m])"
    by (auto simp: Endpoints_body_def Let_def split: if_splits)
  with ex show ?thesis by auto
qed

lemma Endpoints_loop_failure:
  assumes "TemplateExecute tmpl h \<in> set (snd (Endpoints_loop p k sc hps endpoints))"
    and "Execute k tmpl h = Inl err"
  shows "fst (Endpoints_loop p k sc hps endpoints) = Inl (TemplateFailure (Namespace h) (Name h) err)"
  using assms
proof (induction hps arbitrary: endpoints)
  case Nil
  then show ?case by simp
next
  case (Cons hp hps)
  show ?case
  proof (cases "fst (Endpoints_body p k sc hp)")
    case (Inl e)
    with Cons.prems have "TemplateExecute tmpl h \<in> set (snd (Endpoints_body p k sc hp))"
      by (simp add: snd_Endpoints_loop_Cons del: Endpoints_loop.simps)
    from Endpoints_body_failure [OF this Cons.prems(2)] show ?thesis
      by (simp add: fst_Endpoints_loop_Cons del: Endpoints_loop.simps)
  next
    case (Inr hpEndpoints)
    have "TemplateExecute tmpl h \<notin> set (snd (Endpoints_body p k sc hp))"
      using Endpoints_body_failure [OF _ Cons.prems(2)] Inr by fastforce
    with Cons.prems Inr
    have "TemplateExecute tmpl h \<in> set (snd (Endpoints_loop p k sc hps (endpoints @ hpEndpoints)))"
      by (simp add: snd_Endpoints_loop_Cons del: Endpoints_loop.simps)
    from Cons.IH [OF this Cons.prems(2)] Inr show ?thesis
      by (simp add: fst_Endpoints_loop_Cons del: Endpoints_loop.simps)
  qed
qed

subsection \<open>Strings and the hostname loops\<close>

lemma hostnameEndpoints_append:
  "hostnameEndpoints p hostnames targets ttl providerSpecific setIdentifier endpoints =
     endpoints @ concat (map (\<lambda>hostname. endpointsForHostname p hostname targets ttl
                                providerSpecific setIdentifier) hostnames)"
  by (induction hostnames arbitrary: endpoints) simp_all

lemma templateEndpoints_append:
  "templateEndpoints p hostnames targets ttl providerSpecific setIdentifier endpoints =
     endpoints @ concat (map (\<lambda>hostname. endpointsForHostname p (TrimSuffix hostname ''.'') targets ttl
                                providerSpecific setIdentifier) hostnames)"
  by (induction hostnames arbitrary: endpoints) (simp_all add: Let_def)

lemma TrimSuffix_period:
  "TrimSuffix (s @ ''.'') ''.'' = s"
  by (simp add: TrimSuffix_def)

lemma TrimSuffix_no_period:
  "(\<nexists>s'. s = s' @ ''.'') \<Longrightarrow> TrimSuffix s ''.'' = s"
proof -
  assume a: "\<nexists>s'. s = s' @ ''.''"
  have "\<not> (1 \<le> length s \<and> drop (length s - 1) s = ''.'')"
  proof
    assume "1 \<le> length s \<and> drop (length s - 1) s = ''.''"
    then have "s = take (length s - 1) s @ ''.''"
      by (metis append_take_drop_id)
    with a show False by blast
  qed
  then show ?thesis by (auto simp: TrimSuffix_def)
qed

lemma Split_not_Nil: "Split s sep \<noteq> []"
  by (induction s) (auto split: list.splits)

lemma Split_no_sep: "piece \<in> set (Split s sep) \<Longrightarrow> sep \<notin> set piece"
proof (induction s arbitrary: piece)
  case Nil
  then show ?case by simp
next
  case (Cons c s)
  then show ?case
    by (cases "Split s sep") (auto split: if_splits)
qed

lemma Join_Split: "Join (Split s sep) sep = s"
proof (induction s)
  case Nil
  then show ?case by simp
next
  case (Cons c s)
  then show ?case
  proof (cases "Split s sep")
    case Nil
    with Split_not_Nil show ?thesis by blast
  next
    case (Cons piece pieces)
    with Cons.IH show ?thesis
      by (cases pieces) auto
  qed
qed

lemma TrimSuffix_one_period:
  assumes "\<nexists>s. piece = s @ ''..''"
  shows "\<nexists>s. TrimSuffix piece ''.'' = s @ ''.''"
proof (cases "\<exists>s'. piece = s' @ ''.''")
  case True
  then obtain s' where s': "piece = s' @ ''.''" by blast
  then have "TrimSuffix piece ''.'' = s'" by (simp add: TrimSuffix_period)
  moreover have "\<nexists>s. s' = s @ ''.''" using assms s' by auto
  ultimately show ?thesis by simp
next
  case False
  then have "TrimSuffix piece ''.'' = piece" by (rule TrimSuffix_no_period)
  with False show ?thesis by simp
qed

lemma Split_subset: "piece \<in> set (Split s sep) \<Longrightarrow> set piece \<subseteq> set s"
proof (induction s arbitrary: piece)
  case Nil
  then show ?case by simp
next
  case (Cons c s)
  show ?case
  proof (cases "Split s sep")
    case Nil
    with Split_not_Nil show ?thesis by blast
  next
    case split: (Cons first pieces)
    have first: "set first \<subseteq> set s" and rest: "\<And>q. q \<in> set pieces \<Longrightarrow> set q \<subseteq> set s"
      using Cons.IH split by simp_all
    from Cons.prems split have "piece = [] \<or> piece = c # first \<or> piece = first \<or> piece \<in> set pieces"
      by (auto split: if_splits)
    with first rest show ?thesis by auto
  qed
qed

lemma endpointsFromHttpProxy_valid:
  assumes "Status_CurrentStatus hp = ''valid''"
    and "fst (resolveTargets p k sc (Annotations hp)) = Inr targets"
  shows "fst (endpointsFromHttpProxy p k sc hp) =
     Inr ((case Spec_VirtualHost hp of
             None \<Rightarrow> []
           | Some virtualHost \<Rightarrow>
               if Fqdn virtualHost \<noteq> []
               then endpointsForHostname p (Fqdn virtualHost) targets
                      (fst (getTTLFromAnnotations p (Annotations hp)))
                      (fst (getProviderSpecificAnnotations p (Annotations hp)))
                      (snd (getProviderSpecificAnnotations p (Annotations hp)))
               else []) @
          (if ignoreHostnameAnnotation sc then []
           else concat (map (\<lambda>hostname. endpointsForHostname p hostname targets
                               (fst (getTTLFromAnnotations p (Annotations hp)))
                               (fst (getProviderSpecificAnnotations p (Annotations hp)))
                               (snd (getProviderSpecificAnnotations p (Annotations hp))))
                         (getHostnamesFromAnnotations p (Annotations hp)))))"
proof -
  obtain tr where "resolveTargets p k sc (Annotations hp) = (Inr targets, tr)"
    using assms(2) by (cases "resolveTargets p k sc (Annotations hp)") simp
  then show ?thesis
    using assms(1)
    by (simp add: endpointsFromHttpProxy_def hostnameEndpoints_append split_beta Let_def)
qed

lemma endpointsFromTemplate_rendered:
  assumes "Execute k tmpl hp = Inr hostnames"
    and "fst (resolveTargets p k sc (Annotations hp)) = Inr targets"
  shows "fst (endpointsFromTemplate p k sc tmpl hp) =
     Inr (concat (map (\<lambda>piece. endpointsForHostname p (TrimSuffix piece ''.'') targets
                         (fst (getTTLFromAnnotations p (Annotations hp)))
                         (fst (getProviderSpecificAnnotations p (Annotations hp)))
                         (snd (getProviderSpecificAnnotations p (Annotations hp))))
                   (Split (Replace_spaces hostnames) CHR '','')))"
proof -
  obtain tr where "resolveTargets p k sc (Annotations hp) = (Inr targets, tr)"
    using assms(2) by (cases "resolveTargets p k sc (Annotations hp)") simp
  then show ?thesis
    using assms(1)
    by (simp add: endpointsFromTemplate_def templateEndpoints_append split_beta Let_def)
qed

subsection \<open>The results of the functions\<close>

text \<open>An error of target resolution is the error of either path; the result of the loop
  body and of \<^verbatim>\<open>Endpoints\<close>, apart from the effects.\<close>

lemma endpointsFromHttpProxy_error:
  assumes "Status_CurrentStatus hp = ''valid''"
    and "fst (resolveTargets p k sc (Annotations hp)) = Inl err"
  shows "fst (endpointsFromHttpProxy p k sc hp) = Inl err"
proof -
  obtain tr where "resolveTargets p k sc (Annotations hp) = (Inl err, tr)"
    using assms(2) by (cases "resolveTargets p k sc (Annotations hp)") simp
  then show ?thesis
    using assms(1) by (simp add: endpointsFromHttpProxy_def split_beta)
qed

lemma endpointsFromTemplate_error:
  assumes "Execute k tmpl hp = Inr hostnames"
    and "fst (resolveTargets p k sc (Annotations hp)) = Inl err"
  shows "fst (endpointsFromTemplate p k sc tmpl hp) = Inl err"
proof -
  obtain tr where "resolveTargets p k sc (Annotations hp) = (Inl err, tr)"
    using assms(2) by (cases "resolveTargets p k sc (Annotations hp)") simp
  then show ?thesis
    using assms(1) by (simp add: endpointsFromTemplate_def split_beta)
qed

lemma fst_Endpoints_generate:
  "fst (Endpoints_generate p k sc hp) =
     (case fst (endpointsFromHttpProxy p k sc hp) of
        Inl err \<Rightarrow> Inl err
      | Inr hpEndpoints \<Rightarrow>
          if (combineFQDNAnnotation sc \<or> hpEndpoints = []) \<and> fqdnTemplate sc \<noteq> None
          then (case fst (endpointsFromTemplate p k sc (the (fqdnTemplate sc)) hp) of
                  Inl err \<Rightarrow> Inl err
                | Inr tmplEndpoints \<Rightarrow> Inr (setResourceLabel p hp (hpEndpoints @ tmplEndpoints)))
          else Inr (setResourceLabel p hp hpEndpoints))"
proof -
  obtain r tr where hpr: "endpointsFromHttpProxy p k sc hp = (r, tr)"
    by (cases "endpointsFromHttpProxy p k sc hp")
  show ?thesis
  proof (cases r)
    case (Inl err)
    with hpr show ?thesis by (simp add: Endpoints_generate_error)
  next
    case (Inr hpEndpoints)
    show ?thesis
    proof (cases "(combineFQDNAnnotation sc \<or> hpEndpoints = []) \<and> fqdnTemplate sc \<noteq> None")
      case False
      from Endpoints_generate_plain [OF hpr [unfolded Inr] False] hpr Inr False
      show ?thesis by auto
    next
      case True
      then obtain tmpl where tm: "fqdnTemplate sc = Some tmpl" by auto
      obtain r' tr' where tp: "endpointsFromTemplate p k sc tmpl hp = (r', tr')"
        by (cases "endpointsFromTemplate p k sc tmpl hp")
      show ?thesis
      proof (cases r')
        case (Inl err)
        from Endpoints_generate_template_error [OF hpr [unfolded Inr] _ tm tp [unfolded Inl]] True
          hpr Inr tm tp Inl
        show ?thesis by auto
      next
        case r': (Inr tmplEndpoints)
        from Endpoints_generate_template [OF hpr [unfolded Inr] _ tm tp [unfolded r']] True
          hpr Inr tm tp r'
        show ?thesis by auto
      qed
    qed
  qed
qed

lemma fst_Endpoints_body:
  "fst (Endpoints_body p k sc hp) =
     (if (\<exists>controller. Annotations hp (controllerAnnotationKey p) = Some controller \<and>
             controller \<noteq> controllerAnnotationValue p)
         \<or> Status_CurrentStatus hp \<noteq> ''valid''
      then Inr [] else fst (Endpoints_generate p k sc hp))"
  by (auto simp: Endpoints_body_def Let_def)

lemma fst_Endpoints:
  "fst (Endpoints p k sc) =
     (case ListHTTPProxies k (namespace sc) of
        Inl err \<Rightarrow> Inl err
      | Inr listed \<Rightarrow>
          (case filterByAnnotations k sc listed of
             Inl err \<Rightarrow> Inl err
           | Inr hps \<Rightarrow> map_sum id (map sortTargets) (fst (Endpoints_loop p k sc hps []))))"
  by (simp add: Endpoints_def split: sum.splits prod.splits)

subsection \<open>The order of the targets\<close>

lemma sort_cong_mset: "mset xs = mset ys \<Longrightarrow> sort xs = sort (ys :: string list)"
  by (metis mset_sort properties_for_sort sorted_sort)

lemma ingressTargets_mset:
  assumes "mset ingress = mset ingress'"
  shows "mset (ingressTargets ingress []) = mset (ingressTargets ingress' [])"
proof -
  let ?f = "\<lambda>lb. (if IP lb \<noteq> [] then [IP lb] else []) @
                  (if Hostname lb \<noteq> [] then [Hostname lb] else [])"
  have eq: "mset (concat (map ?f xs)) = sum_mset (image_mset (\<lambda>lb. mset (?f lb)) (mset xs))" for xs
    by (induction xs) simp_all
  have "mset (concat (map ?f ingress)) = mset (concat (map ?f ingress'))"
    by (simp only: eq assms)
  then show ?thesis
    by (simp only: ingressTargets_append append_Nil)
qed

lemma sortTargets_setResourceLabel:
  "map sortTargets (setResourceLabel p hp endpoints) = setResourceLabel p hp (map sortTargets endpoints)"
  by (simp add: setResourceLabel_def sortTargets_def)

lemma sortTargets_sorted: "sorted (Targets (sortTargets ep))"
  by (simp add: sortTargets_def)

text \<open>A permuted ingress list gives a permuted target list.\<close>

lemma resolveTargets_order:
  assumes "\<forall>ns n. map_sum id mset (GetService k ns n) = map_sum id mset (lookup ns n)"
  shows "map_sum id mset (fst (resolveTargets p (k\<lparr>GetService := lookup\<rparr>) sc anns)) =
         map_sum id mset (fst (resolveTargets p k sc anns))"
proof (cases "getTargetsFromTargetAnnotation p anns = []")
  case False
  then show ?thesis by (simp add: resolveTargets_def)
next
  case True
  show ?thesis
  proof (cases "parseContourLoadBalancerService p (contourLoadBalancerService sc)")
    case (Inl err)
    with True show ?thesis
      by (simp add: resolveTargets_def targetsFromContourLoadBalancer_def)
  next
    case (Inr service)
    obtain ns n where service: "service = (ns, n)" by (cases service)
    from assms have rel: "map_sum id mset (GetService k ns n) = map_sum id mset (lookup ns n)"
      by blast
    show ?thesis
    proof (cases "GetService k ns n")
      case l: (Inl err)
      with rel have "lookup ns n = Inl err" by (cases "lookup ns n") simp_all
      with l True Inr service show ?thesis
        by (simp add: resolveTargets_def targetsFromContourLoadBalancer_def)
    next
      case r: (Inr ingress)
      with rel obtain ingress' where l': "lookup ns n = Inr ingress'"
        and perm: "mset ingress = mset ingress'"
        by (cases "lookup ns n") simp_all
      from perm have "mset (ingressTargets ingress []) = mset (ingressTargets ingress' [])"
        by (rule ingressTargets_mset)
      with r l' True Inr service show ?thesis
        by (simp add: resolveTargets_def targetsFromContourLoadBalancer_def)
    qed
  qed
qed

text \<open>When the assembler does not depend on the order of the targets it is given, other
  than in the order of the targets of its endpoints, a service lookup that answers with
  permuted ingress lists changes the endpoints of both paths only in the order of their
  targets.\<close>

lemma map_sum_Inl_iff: "map_sum id f r = Inl err \<longleftrightarrow> r = Inl err"
  by (cases r) simp_all

lemma map_sum_Inr_iff: "map_sum id f r = Inr y \<longleftrightarrow> (\<exists>x. r = Inr x \<and> f x = y)"
  by (cases r) auto

lemma endpointsFromHttpProxy_order:
  assumes blind: "\<forall>hostname ts ts' ttl ps sid. mset ts = mset ts' \<longrightarrow>
        map sortTargets (endpointsForHostname p hostname ts ttl ps sid) =
        map sortTargets (endpointsForHostname p hostname ts' ttl ps sid)"
    and perm: "\<forall>ns n. map_sum id mset (GetService k ns n) = map_sum id mset (lookup ns n)"
  shows "map_sum id (map sortTargets) (fst (endpointsFromHttpProxy p (k\<lparr>GetService := lookup\<rparr>) sc hp)) =
         map_sum id (map sortTargets) (fst (endpointsFromHttpProxy p k sc hp))"
proof (cases "Status_CurrentStatus hp = ''valid''")
  case False
  then show ?thesis by (simp add: endpointsFromHttpProxy_def)
next
  case True
  note rel = resolveTargets_order [OF perm, of p sc "Annotations hp"]
  show ?thesis
  proof (cases "fst (resolveTargets p k sc (Annotations hp))")
    case (Inl err)
    with rel have "fst (resolveTargets p (k\<lparr>GetService := lookup\<rparr>) sc (Annotations hp)) = Inl err"
      by (simp add: map_sum_Inl_iff)
    with Inl True show ?thesis by (simp add: endpointsFromHttpProxy_error)
  next
    case (Inr ts)
    with rel obtain ts' where
      ts': "fst (resolveTargets p (k\<lparr>GetService := lookup\<rparr>) sc (Annotations hp)) = Inr ts'"
      and m: "mset ts' = mset ts"
      by (auto simp: map_sum_Inr_iff)
    from blind m have eq: "map sortTargets (endpointsForHostname p hostname ts' ttl ps sid) =
        map sortTargets (endpointsForHostname p hostname ts ttl ps sid)" for hostname ttl ps sid
      by blast
    show ?thesis
      by (simp add: endpointsFromHttpProxy_valid [OF True Inr] endpointsFromHttpProxy_valid [OF True ts']
                    map_concat comp_def eq split: option.splits)
  qed
qed

lemma endpointsFromTemplate_order:
  assumes blind: "\<forall>hostname ts ts' ttl ps sid. mset ts = mset ts' \<longrightarrow>
        map sortTargets (endpointsForHostname p hostname ts ttl ps sid) =
        map sortTargets (endpointsForHostname p hostname ts' ttl ps sid)"
    and perm: "\<forall>ns n. map_sum id mset (GetService k ns n) = map_sum id mset (lookup ns n)"
  shows "map_sum id (map sortTargets) (fst (endpointsFromTemplate p (k\<lparr>GetService := lookup\<rparr>) sc tmpl hp)) =
         map_sum id (map sortTargets) (fst (endpointsFromTemplate p k sc tmpl hp))"
proof (cases "Execute k tmpl hp")
  case (Inl err)
  then show ?thesis by (simp add: endpointsFromTemplate_failure)
next
  case rendered: (Inr hostnames)
  then have rendered': "Execute (k\<lparr>GetService := lookup\<rparr>) tmpl hp = Inr hostnames" by simp
  note rel = resolveTargets_order [OF perm, of p sc "Annotations hp"]
  show ?thesis
  proof (cases "fst (resolveTargets p k sc (Annotations hp))")
    case (Inl err)
    with rel have "fst (resolveTargets p (k\<lparr>GetService := lookup\<rparr>) sc (Annotations hp)) = Inl err"
      by (simp add: map_sum_Inl_iff)
    with Inl rendered rendered' show ?thesis by (simp add: endpointsFromTemplate_error)
  next
    case (Inr ts)
    with rel obtain ts' where
      ts': "fst (resolveTargets p (k\<lparr>GetService := lookup\<rparr>) sc (Annotations hp)) = Inr ts'"
      and m: "mset ts' = mset ts"
      by (auto simp: map_sum_Inr_iff)
    from blind m have eq: "map sortTargets (endpointsForHostname p hostname ts' ttl ps sid) =
        map sortTargets (endpointsForHostname p hostname ts ttl ps sid)" for hostname ttl ps sid
      by blast
    show ?thesis
      by (simp add: endpointsFromTemplate_rendered [OF rendered Inr]
                    endpointsFromTemplate_rendered [OF rendered' ts'] map_concat comp_def eq)
  qed
qed

lemma Endpoints_generate_order:
  assumes blind: "\<forall>hostname ts ts' ttl ps sid. mset ts = mset ts' \<longrightarrow>
        map sortTargets (endpointsForHostname p hostname ts ttl ps sid) =
        map sortTargets (endpointsForHostname p hostname ts' ttl ps sid)"
    and perm: "\<forall>ns n. map_sum id mset (GetService k ns n) = map_sum id mset (lookup ns n)"
  shows "map_sum id (map sortTargets) (fst (Endpoints_generate p (k\<lparr>GetService := lookup\<rparr>) sc hp)) =
         map_sum id (map sortTargets) (fst (Endpoints_generate p k sc hp))"
proof -
  let ?k' = "k\<lparr>GetService := lookup\<rparr>"
  note primary = endpointsFromHttpProxy_order [OF blind perm, of sc hp]
  note template = endpointsFromTemplate_order [OF blind perm, of sc "the (fqdnTemplate sc)" hp]
  show ?thesis
  proof (cases "fst (endpointsFromHttpProxy p k sc hp)")
    case (Inl err)
    with primary have "fst (endpointsFromHttpProxy p ?k' sc hp) = Inl err"
      by (simp add: map_sum_Inl_iff)
    with Inl show ?thesis by (simp add: fst_Endpoints_generate)
  next
    case (Inr es)
    with primary obtain es' where es': "fst (endpointsFromHttpProxy p ?k' sc hp) = Inr es'"
      and same: "map sortTargets es' = map sortTargets es"
      by (auto simp: map_sum_Inr_iff)
    from same have len: "es' = [] \<longleftrightarrow> es = []"
      by (metis map_is_Nil_conv)
    show ?thesis
    proof (cases "(combineFQDNAnnotation sc \<or> es = []) \<and> fqdnTemplate sc \<noteq> None")
      case False
      with Inr es' same len show ?thesis
        by (auto simp: fst_Endpoints_generate sortTargets_setResourceLabel)
    next
      case True
      show ?thesis
      proof (cases "fst (endpointsFromTemplate p k sc (the (fqdnTemplate sc)) hp)")
        case l: (Inl err)
        with template have "fst (endpointsFromTemplate p ?k' sc (the (fqdnTemplate sc)) hp) = Inl err"
          by (simp add: map_sum_Inl_iff)
        with l True Inr es' len show ?thesis
          by (auto simp: fst_Endpoints_generate)
      next
        case r: (Inr ts)
        with template obtain ts' where
          ts': "fst (endpointsFromTemplate p ?k' sc (the (fqdnTemplate sc)) hp) = Inr ts'"
          and same': "map sortTargets ts' = map sortTargets ts"
          by (auto simp: map_sum_Inr_iff)
        with r True Inr es' len same show ?thesis
          by (auto simp: fst_Endpoints_generate sortTargets_setResourceLabel)
      qed
    qed
  qed
qed

lemma Endpoints_body_order:
  assumes blind: "\<forall>hostname ts ts' ttl ps sid. mset ts = mset ts' \<longrightarrow>
        map sortTargets (endpointsForHostname p hostname ts ttl ps sid) =
        map sortTargets (endpointsForHostname p hostname ts' ttl ps sid)"
    and perm: "\<forall>ns n. map_sum id mset (GetService k ns n) = map_sum id mset (lookup ns n)"
  shows "map_sum id (map sortTargets) (fst (Endpoints_body p (k\<lparr>GetService := lookup\<rparr>) sc hp)) =
         map_sum id (map sortTargets) (fst (Endpoints_body p k sc hp))"
  using Endpoints_generate_order [OF blind perm, of sc hp]
  by (auto simp: fst_Endpoints_body)

lemma Endpoints_loop_order:
  assumes blind: "\<forall>hostname ts ts' ttl ps sid. mset ts = mset ts' \<longrightarrow>
        map sortTargets (endpointsForHostname p hostname ts ttl ps sid) =
        map sortTargets (endpointsForHostname p hostname ts' ttl ps sid)"
    and perm: "\<forall>ns n. map_sum id mset (GetService k ns n) = map_sum id mset (lookup ns n)"
    and acc: "map sortTargets endpoints' = map sortTargets endpoints"
  shows "map_sum id (map sortTargets) (fst (Endpoints_loop p (k\<lparr>GetService := lookup\<rparr>) sc hps endpoints')) =
         map_sum id (map sortTargets) (fst (Endpoints_loop p k sc hps endpoints))"
  using acc
proof (induction hps arbitrary: endpoints endpoints')
  case Nil
  then show ?case by simp
next
  case (Cons hp hps)
  let ?k' = "k\<lparr>GetService := lookup\<rparr>"
  note body = Endpoints_body_order [OF blind perm, of sc hp]
  show ?case
  proof (cases "fst (Endpoints_body p k sc hp)")
    case (Inl err)
    with body have "fst (Endpoints_body p ?k' sc hp) = Inl err"
      by (simp add: map_sum_Inl_iff)
    with Inl show ?thesis
      by (simp add: fst_Endpoints_loop_Cons del: Endpoints_loop.simps)
  next
    case (Inr es)
    with body obtain es' where es': "fst (Endpoints_body p ?k' sc hp) = Inr es'"
      and same: "map sortTargets es' = map sortTargets es"
      by (auto simp: map_sum_Inr_iff)
    from Cons.prems same
    have "map sortTargets (endpoints' @ es') = map sortTargets (endpoints @ es)" by simp
    from Cons.IH [OF this] Inr es' show ?thesis
      by (simp add: fst_Endpoints_loop_Cons del: Endpoints_loop.simps)
  qed
qed

lemma sortTargets_idem: "sortTargets (sortTargets ep) = sortTargets ep"
  by (simp add: sortTargets_def sorted_sort_id)

text \<open>The assembler of the specification is such an assembler.\<close>

lemma spec_endpointsForHostname_order:
  assumes "mset ts = mset ts'"
  shows "map sortTargets (spec_endpointsForHostname c hostname ts ttl ps sid) =
         map sortTargets (spec_endpointsForHostname c hostname ts' ttl ps sid)"
proof -
  have m: "mset (filter P ts) = mset (filter P ts')" for P
    using assms by simp
  have e: "filter P ts = [] \<longleftrightarrow> filter P ts' = []" for P
    using m [of P] by (metis mset_zero_iff)
  have s: "sort (filter P ts) = sort (filter P ts')" for P
    using m [of P] by (rule sort_cong_mset)
  show ?thesis
    by (simp add: spec_endpointsForHostname_def Let_def sortTargets_def e [of "isIPLiteral c"]
          e [of "\<lambda>t. \<not> isIPLiteral c t"] s)
qed

subsection \<open>The TTL\<close>

text \<open>The error that comes with the TTL has no part in the results.\<close>

lemma resolveTargets_ttl:
  "resolveTargets (p\<lparr>getTTLFromAnnotations := g\<rparr>) k sc anns = resolveTargets p k sc anns"
  by (simp add: resolveTargets_def targetsFromContourLoadBalancer_def Let_def)

lemma endpointsFromHttpProxy_ttl:
  assumes "fst (g (Annotations hp)) = fst (getTTLFromAnnotations p (Annotations hp))"
  shows "fst (endpointsFromHttpProxy (p\<lparr>getTTLFromAnnotations := g\<rparr>) k sc hp) =
         fst (endpointsFromHttpProxy p k sc hp)"
proof (cases "Status_CurrentStatus hp = ''valid''")
  case False
  then show ?thesis by (simp add: endpointsFromHttpProxy_def)
next
  case True
  let ?p' = "p\<lparr>getTTLFromAnnotations := g\<rparr>"
  show ?thesis
  proof (cases "fst (resolveTargets p k sc (Annotations hp))")
    case (Inl err)
    then have "fst (resolveTargets ?p' k sc (Annotations hp)) = Inl err"
      by (simp add: resolveTargets_ttl)
    with Inl True show ?thesis by (simp add: endpointsFromHttpProxy_error)
  next
    case (Inr ts)
    then have ts': "fst (resolveTargets ?p' k sc (Annotations hp)) = Inr ts"
      by (simp add: resolveTargets_ttl)
    show ?thesis
      by (simp add: endpointsFromHttpProxy_valid [OF True Inr]
                    endpointsFromHttpProxy_valid [OF True ts'] assms split: option.splits)
  qed
qed

lemma endpointsFromTemplate_ttl:
  assumes "fst (g (Annotations hp)) = fst (getTTLFromAnnotations p (Annotations hp))"
  shows "fst (endpointsFromTemplate (p\<lparr>getTTLFromAnnotations := g\<rparr>) k sc tmpl hp) =
         fst (endpointsFromTemplate p k sc tmpl hp)"
proof (cases "Execute k tmpl hp")
  case (Inl err)
  then show ?thesis by (simp add: endpointsFromTemplate_failure)
next
  case rendered: (Inr hostnames)
  let ?p' = "p\<lparr>getTTLFromAnnotations := g\<rparr>"
  show ?thesis
  proof (cases "fst (resolveTargets p k sc (Annotations hp))")
    case (Inl err)
    then have "fst (resolveTargets ?p' k sc (Annotations hp)) = Inl err"
      by (simp add: resolveTargets_ttl)
    with Inl rendered show ?thesis by (simp add: endpointsFromTemplate_error)
  next
    case (Inr ts)
    then have ts': "fst (resolveTargets ?p' k sc (Annotations hp)) = Inr ts"
      by (simp add: resolveTargets_ttl)
    show ?thesis
      by (simp add: endpointsFromTemplate_rendered [OF rendered Inr]
                    endpointsFromTemplate_rendered [OF rendered ts'] assms)
  qed
qed

lemma Endpoints_body_ttl:
  assumes "fst (g (Annotations hp)) = fst (getTTLFromAnnotations p (Annotations hp))"
  shows "fst (Endpoints_body (p\<lparr>getTTLFromAnnotations := g\<rparr>) k sc hp) =
         fst (Endpoints_body p k sc hp)"
proof -
  have "fst (Endpoints_generate (p\<lparr>getTTLFromAnnotations := g\<rparr>) k sc hp) =
        fst (Endpoints_generate p k sc hp)"
    by (simp add: fst_Endpoints_generate
          endpointsFromHttpProxy_ttl [where g = g and hp = hp and p = p, OF assms]
          endpointsFromTemplate_ttl [where g = g and hp = hp and p = p, OF assms]
          setResourceLabel_def split: sum.splits)
  then show ?thesis
    by (auto simp: fst_Endpoints_body)
qed

lemma Endpoints_loop_ttl:
  assumes "\<forall>hp \<in> set hps. fst (g (Annotations hp)) = fst (getTTLFromAnnotations p (Annotations hp))"
  shows "fst (Endpoints_loop (p\<lparr>getTTLFromAnnotations := g\<rparr>) k sc hps endpoints) =
         fst (Endpoints_loop p k sc hps endpoints)"
  using assms
proof (induction hps arbitrary: endpoints)
  case Nil
  then show ?case by simp
next
  case (Cons hp hps)
  then have "fst (g (Annotations hp)) = fst (getTTLFromAnnotations p (Annotations hp))"
    by simp
  then have "fst (Endpoints_body (p\<lparr>getTTLFromAnnotations := g\<rparr>) k sc hp) = fst (Endpoints_body p k sc hp)"
    by (rule Endpoints_body_ttl)
  with Cons show ?case
    by (simp add: fst_Endpoints_loop_Cons del: Endpoints_loop.simps split: sum.splits)
qed

lemma Endpoints_ttl:
  assumes "\<forall>anns. fst (g anns) = fst (getTTLFromAnnotations p anns)"
  shows "fst (Endpoints (p\<lparr>getTTLFromAnnotations := g\<rparr>) k sc) = fst (Endpoints p k sc)"
  using assms by (simp add: fst_Endpoints Endpoints_loop_ttl split: sum.splits)

text \<open>When the assembler gives its endpoints the TTL it is given, the endpoints of a
  resource have the TTL that the codec returned for its annotations.\<close>

lemma endpointsFromHttpProxy_RecordTTL:
  assumes asm: "\<forall>hostname ts ttl ps sid. \<forall>ep \<in> set (endpointsForHostname p hostname ts ttl ps sid).
                  RecordTTL ep = ttl"
    and res: "fst (endpointsFromHttpProxy p k sc hp) = Inr endpoints"
    and ep: "ep \<in> set endpoints"
  shows "RecordTTL ep = fst (getTTLFromAnnotations p (Annotations hp))"
proof (cases "Status_CurrentStatus hp = ''valid''")
  case False
  with res ep show ?thesis by (simp add: endpointsFromHttpProxy_def)
next
  case True
  show ?thesis
  proof (cases "fst (resolveTargets p k sc (Annotations hp))")
    case (Inl err)
    with True res show ?thesis by (simp add: endpointsFromHttpProxy_error)
  next
    case (Inr ts)
    from res ep asm show ?thesis
      unfolding endpointsFromHttpProxy_valid [OF True Inr]
      by (auto split: option.splits if_splits)
  qed
qed

lemma endpointsFromTemplate_RecordTTL:
  assumes asm: "\<forall>hostname ts ttl ps sid. \<forall>ep \<in> set (endpointsForHostname p hostname ts ttl ps sid).
                  RecordTTL ep = ttl"
    and res: "fst (endpointsFromTemplate p k sc tmpl hp) = Inr endpoints"
    and ep: "ep \<in> set endpoints"
  shows "RecordTTL ep = fst (getTTLFromAnnotations p (Annotations hp))"
proof (cases "Execute k tmpl hp")
  case (Inl err)
  with res show ?thesis by (simp add: endpointsFromTemplate_failure)
next
  case rendered: (Inr hostnames)
  show ?thesis
  proof (cases "fst (resolveTargets p k sc (Annotations hp))")
    case (Inl err)
    with rendered res show ?thesis by (simp add: endpointsFromTemplate_error)
  next
    case (Inr ts)
    from res ep asm show ?thesis
      unfolding endpointsFromTemplate_rendered [OF rendered Inr]
      by auto
  qed
qed

lemma setResourceLabel_RecordTTL:
  "ep \<in> set (setResourceLabel p hp endpoints) \<Longrightarrow> \<exists>ep' \<in> set endpoints. RecordTTL ep = RecordTTL ep'"
  by (auto simp: setResourceLabel_def)

lemma contribution_RecordTTL:
  assumes asm: "\<forall>hostname ts ttl ps sid. \<forall>ep \<in> set (endpointsForHostname p hostname ts ttl ps sid).
                  RecordTTL ep = ttl"
    and ep: "ep \<in> set (contribution p k sc hp)"
  shows "RecordTTL ep = fst (getTTLFromAnnotations p (Annotations hp))"
proof -
  obtain es where body: "fst (Endpoints_body p k sc hp) = Inr es"
    using ep by (cases "fst (Endpoints_body p k sc hp)") (simp_all add: contribution_def)
  with ep obtain e where e: "e \<in> set es" and sorted: "ep = sortTargets e"
    by (auto simp: contribution_def)
  from body e have gen: "fst (Endpoints_generate p k sc hp) = Inr es"
    by (auto simp: fst_Endpoints_body split: if_splits)
  then obtain hpE where primary: "fst (endpointsFromHttpProxy p k sc hp) = Inr hpE"
    by (auto simp: fst_Endpoints_generate split: sum.splits)
  have "\<exists>e' . RecordTTL e = RecordTTL e' \<and>
          (e' \<in> set hpE \<or> (\<exists>tE. fst (endpointsFromTemplate p k sc (the (fqdnTemplate sc)) hp) = Inr tE \<and> e' \<in> set tE))"
    using gen primary e setResourceLabel_RecordTTL [of e p hp]
    by (fastforce simp: fst_Endpoints_generate split: sum.splits if_splits)
  then have "RecordTTL e = fst (getTTLFromAnnotations p (Annotations hp))"
    using endpointsFromHttpProxy_RecordTTL [OF asm primary]
      endpointsFromTemplate_RecordTTL [OF asm] by metis
  with sorted show ?thesis by (simp add: sortTargets_def)
qed

text \<open>Both paths log the error that comes with the TTL; the assembler of the specification
  gives its endpoints the TTL it is given.\<close>

lemma endpointsFromHttpProxy_warns:
  assumes "getTTLFromAnnotations p (Annotations hp) = (ttl, Some err)"
    and "Status_CurrentStatus hp = ''valid''"
  shows "LogWarn err \<in> set (snd (endpointsFromHttpProxy p k sc hp))"
proof -
  obtain r tr where "resolveTargets p k sc (Annotations hp) = (r, tr)"
    by (cases "resolveTargets p k sc (Annotations hp)")
  with assms show ?thesis
    by (cases r) (simp_all add: endpointsFromHttpProxy_def warn_def split_beta Let_def)
qed

lemma endpointsFromTemplate_warns:
  assumes "getTTLFromAnnotations p (Annotations hp) = (ttl, Some err)"
    and "Execute k tmpl hp = Inr hostnames"
  shows "LogWarn err \<in> set (snd (endpointsFromTemplate p k sc tmpl hp))"
proof -
  obtain r tr where "resolveTargets p k sc (Annotations hp) = (r, tr)"
    by (cases "resolveTargets p k sc (Annotations hp)")
  with assms show ?thesis
    by (cases r) (simp_all add: endpointsFromTemplate_def warn_def split_beta Let_def)
qed

lemma spec_endpointsForHostname_RecordTTL:
  "\<forall>hostname ts ttl ps sid. \<forall>ep \<in> set (endpointsForHostname (spec_pkg c) hostname ts ttl ps sid).
     RecordTTL ep = ttl"
  by (auto simp: spec_pkg_def spec_endpointsForHostname_def Let_def split: if_splits)

subsection \<open>The ownership label\<close>

lemma setResourceLabel_label:
  "ep \<in> set (setResourceLabel p hp endpoints) \<Longrightarrow>
     Labels ep (ResourceLabelKey p) = Some (resourceLabel hp)"
  by (auto simp: setResourceLabel_def)

lemma Endpoints_generate_label:
  assumes "Endpoints_generate p k sc hp = (Inr endpoints, tr)" and "ep \<in> set endpoints"
  shows "Labels ep (ResourceLabelKey p) = Some (resourceLabel hp)"
  using assms
  by (auto simp: Endpoints_generate_def setResourceLabel_label
           split: prod.splits sum.splits if_splits)

lemma Endpoints_body_label:
  assumes "Endpoints_body p k sc hp = (Inr endpoints, tr)" and "ep \<in> set endpoints"
  shows "Labels ep (ResourceLabelKey p) = Some (resourceLabel hp)"
  using assms
  by (auto simp: Endpoints_body_def Let_def dest: Endpoints_generate_label split: if_splits)

lemma sortTargets_Labels [simp]: "Labels (sortTargets ep) = Labels ep"
  by (simp add: sortTargets_def)

lemma contribution_label:
  "ep \<in> set (contribution p k sc hp) \<Longrightarrow> Labels ep (ResourceLabelKey p) = Some (resourceLabel hp)"
  by (cases "Endpoints_body p k sc hp")
     (auto simp: contribution_def split: sum.splits dest: Endpoints_body_label)

lemma Endpoints_loop_Inr:
  "Endpoints_loop p k sc hps endpoints = (Inr res, tr) \<Longrightarrow>
     map sortTargets res = map sortTargets endpoints @ concat (map (contribution p k sc) hps)"
proof (induction hps arbitrary: endpoints tr)
  case Nil
  then show ?case by simp
next
  case (Cons hp hps)
  obtain r t where body: "Endpoints_body p k sc hp = (r, t)"
    by (cases "Endpoints_body p k sc hp")
  show ?case
  proof (cases r)
    case (Inl err)
    with Cons.prems body show ?thesis by simp
  next
    case (Inr hpEndpoints)
    obtain r' t' where rest: "Endpoints_loop p k sc hps (endpoints @ hpEndpoints) = (r', t')"
      by (cases "Endpoints_loop p k sc hps (endpoints @ hpEndpoints)")
    with Cons.prems body Inr have "r' = Inr res" by simp
    with rest have "map sortTargets res =
        map sortTargets (endpoints @ hpEndpoints) @ concat (map (contribution p k sc) hps)"
      using Cons.IH by blast
    moreover have "contribution p k sc hp = map sortTargets hpEndpoints"
      using body Inr by (simp add: contribution_def)
    ultimately show ?thesis by simp
  qed
qed

text \<open>Claim C1. Every endpoint of the list that \<^verbatim>\<open>Endpoints\<close> returns carries the label of the
  resource it was generated from: the returned list is the concatenation, over the
  filtered resources in order, of what each resource contributes, and every endpoint a
  resource \<open>hp\<close> contributes has the entry \<^verbatim>\<open>hp/<namespace>/<name>\<close> of \<open>hp\<close> under the resource
  label key.\<close>

theorem ownership_label:
  assumes "fst (Endpoints p k sc) = Inr endpoints"
  shows "\<exists>listed hps.
           ListHTTPProxies k (namespace sc) = Inr listed \<and>
           filterByAnnotations k sc listed = Inr hps \<and>
           endpoints = concat (map (contribution p k sc) hps) \<and>
           (\<forall>hp \<in> set hps. \<forall>ep \<in> set (contribution p k sc hp).
              Labels ep (ResourceLabelKey p) = Some (resourceLabel hp))"
proof -
  from assms obtain listed where l: "ListHTTPProxies k (namespace sc) = Inr listed"
    by (cases "ListHTTPProxies k (namespace sc)") (simp_all add: Endpoints_def)
  from assms l obtain hps where f: "filterByAnnotations k sc listed = Inr hps"
    by (cases "filterByAnnotations k sc listed") (simp_all add: Endpoints_def)
  obtain r t where loop: "Endpoints_loop p k sc hps [] = (r, t)"
    by (cases "Endpoints_loop p k sc hps []")
  from assms l f loop obtain res where r: "r = Inr res" and e: "endpoints = map sortTargets res"
    by (cases r) (simp_all add: Endpoints_def)
  from loop r have "map sortTargets res = concat (map (contribution p k sc) hps)"
    using Endpoints_loop_Inr by fastforce
  with e l f show ?thesis
    by (auto dest: contribution_label)
qed

text \<open>Two resources \<^verbatim>\<open>foo\<close> and \<^verbatim>\<open>bar\<close> of namespace \<^verbatim>\<open>default\<close>: each endpoint is labelled with
  its own resource.\<close>

theorem ownership_label_witness:
  "map_sum id (map (\<lambda>ep. (DNSName ep, Labels ep ''resource'')))
     (fst (Endpoints (spec_pkg example_codec)
        (example_cluster
           [example_proxy ''foo'' ''a.com'' [(''target'', ''1.2.3.4'')] ''valid'',
            example_proxy ''bar'' ''b.com'' [(''target'', ''lb.example.com'')] ''valid'']
           (Inr []) (\<lambda>hp. Inr []))
        (example_source None False [])))
   = Inr [(''a.com'', Some ''hp/default/foo''), (''b.com'', Some ''hp/default/bar'')]
   \<and> (\<exists>listed hps.
        ListHTTPProxies (example_cluster
           [example_proxy ''foo'' ''a.com'' [(''target'', ''1.2.3.4'')] ''valid'',
            example_proxy ''bar'' ''b.com'' [(''target'', ''lb.example.com'')] ''valid'']
           (Inr []) (\<lambda>hp. Inr [])) (namespace (example_source None False [])) = Inr listed \<and>
        filterByAnnotations (example_cluster
           [example_proxy ''foo'' ''a.com'' [(''target'', ''1.2.3.4'')] ''valid'',
            example_proxy ''bar'' ''b.com'' [(''target'', ''lb.example.com'')] ''valid'']
           (Inr []) (\<lambda>hp. Inr [])) (example_source None False []) listed = Inr hps \<and>
        length hps = 2 \<and>
        (\<forall>hp \<in> set hps. \<forall>ep \<in> set (contribution (spec_pkg example_codec) (example_cluster
           [example_proxy ''foo'' ''a.com'' [(''target'', ''1.2.3.4'')] ''valid'',
            example_proxy ''bar'' ''b.com'' [(''target'', ''lb.example.com'')] ''valid'']
           (Inr []) (\<lambda>hp. Inr [])) (example_source None False []) hp).
              Labels ep (ResourceLabelKey (spec_pkg example_codec)) = Some (resourceLabel hp)))"
proof -
  let ?k = "example_cluster
           [example_proxy ''foo'' ''a.com'' [(''target'', ''1.2.3.4'')] ''valid'',
            example_proxy ''bar'' ''b.com'' [(''target'', ''lb.example.com'')] ''valid'']
           (Inr []) (\<lambda>hp. Inr [])"
  let ?E = "fst (Endpoints (spec_pkg example_codec) ?k (example_source None False []))"
  have run: "?E = Inr (projr ?E)"
    by (simp add: model_simps example_simps)
  have shown: "map_sum id (map (\<lambda>ep. (DNSName ep, Labels ep ''resource''))) ?E
      = Inr [(''a.com'', Some ''hp/default/foo''), (''b.com'', Some ''hp/default/bar'')]"
    by (simp add: model_simps example_simps)
  from ownership_label [OF run] obtain listed hps where
    *: "ListHTTPProxies ?k (namespace (example_source None False [])) = Inr listed"
       "filterByAnnotations ?k (example_source None False []) listed = Inr hps"
       "\<forall>hp \<in> set hps. \<forall>ep \<in> set (contribution (spec_pkg example_codec) ?k
            (example_source None False []) hp).
          Labels ep (ResourceLabelKey (spec_pkg example_codec)) = Some (resourceLabel hp)"
    by blast
  from *(1,2) have "length hps = 2"
    by (auto simp: filterByAnnotations_def example_simps)
  with * shown show ?thesis by blast
qed

subsection \<open>Target resolution\<close>

text \<open>Claim C2. Target resolution falls back in three steps. (1) When the targets of the
  target annotation are not empty they are the result, and no service lookup takes place
  (the list of effects is empty). Otherwise, for a source whose service locator parses
  to a namespace and a name: (2) when the lookup succeeds, the targets are, in the order
  of the ingress list, each entry's IP address if not empty followed by its hostname
  if not empty; (3) when the lookup fails, the failure is logged, the target list is
  empty and no error is returned. The locator of a source that the constructor has built
  does parse, so for such a source target resolution always returns a target list and
  never an error.\<close>

theorem target_resolution_fallback:
  "(getTargetsFromTargetAnnotation p anns \<noteq> [] \<longrightarrow>
      resolveTargets p k sc anns = (Inr (getTargetsFromTargetAnnotation p anns), []))
   \<and> (getTargetsFromTargetAnnotation p anns = [] \<and>
      parseContourLoadBalancerService p (contourLoadBalancerService sc) = Inr (lbNamespace, lbName) \<longrightarrow>
        (\<forall>ingress. GetService k lbNamespace lbName = Inr ingress \<longrightarrow>
           resolveTargets p k sc anns =
             (Inr (concat (map (\<lambda>lb. (if IP lb \<noteq> [] then [IP lb] else []) @
                                      (if Hostname lb \<noteq> [] then [Hostname lb] else [])) ingress)),
              [ServiceGet lbNamespace lbName]))
      \<and> (\<forall>err. GetService k lbNamespace lbName = Inl err \<longrightarrow>
           resolveTargets p k sc anns = (Inr [], [ServiceGet lbNamespace lbName, LogWarn err])))
   \<and> (NewContourHTTPProxySource p k' service ns annFilter tmplText combine ignore health = Inr sc \<longrightarrow>
        (\<exists>lbNamespace lbName.
           parseContourLoadBalancerService p (contourLoadBalancerService sc) = Inr (lbNamespace, lbName))
      \<and> (\<exists>targets. fst (resolveTargets p k sc anns) = Inr targets))"
proof (intro conjI impI)
  assume "NewContourHTTPProxySource p k' service ns annFilter tmplText combine ignore health = Inr sc"
  then show parses: "\<exists>lbNamespace lbName.
      parseContourLoadBalancerService p (contourLoadBalancerService sc) = Inr (lbNamespace, lbName)"
    by (rule NewContourHTTPProxySource_service)
  then show "\<exists>targets. fst (resolveTargets p k sc anns) = Inr targets"
    by (auto simp: resolveTargets_def targetsFromContourLoadBalancer_def Let_def split: sum.splits)
qed (simp_all add: resolveTargets_def targetsFromContourLoadBalancer_def ingressTargets_append)

text \<open>The ingress list of an address \<^verbatim>\<open>10.0.0.1\<close> and a hostname \<^verbatim>\<open>lb.example.com\<close> gives these
  two targets; a target annotation \<^verbatim>\<open>1.2.3.4,5.6.7.8\<close> gives its two targets without any lookup;
  a failing lookup gives no target and no error.\<close>

theorem target_resolution_fallback_witness:
  "NewContourHTTPProxySource (spec_pkg example_codec)
     (example_cluster [] (Inr []) (\<lambda>hp. Inr []))
     ''heptio-contour/contour'' [] [] [] False False False = Inr (example_source None False [])
   \<and> resolveTargets (spec_pkg example_codec)
     (example_cluster [] (Inr [\<lparr>IP = ''10.0.0.1'', Hostname = []\<rparr>,
                              \<lparr>IP = [], Hostname = ''lb.example.com''\<rparr>]) (\<lambda>hp. Inr []))
     (example_source None False []) Map.empty
     = (Inr [''10.0.0.1'', ''lb.example.com''], [ServiceGet ''heptio-contour'' ''contour''])
   \<and> resolveTargets (spec_pkg example_codec)
     (example_cluster [] (Inr [\<lparr>IP = ''10.0.0.1'', Hostname = []\<rparr>]) (\<lambda>hp. Inr []))
     (example_source None False []) [''target'' \<mapsto> ''1.2.3.4,5.6.7.8'']
     = (Inr [''1.2.3.4'', ''5.6.7.8''], [])
   \<and> resolveTargets (spec_pkg example_codec)
     (example_cluster [] (Inl (Failure ''timeout'')) (\<lambda>hp. Inr []))
     (example_source None False []) Map.empty
     = (Inr [], [ServiceGet ''heptio-contour'' ''contour'', LogWarn (Failure ''timeout'')])"
proof -
  let ?p = "spec_pkg example_codec"
  let ?sc = "example_source None False []"
  let ?up = "example_cluster [] (Inr [\<lparr>IP = ''10.0.0.1'', Hostname = []\<rparr>,
                              \<lparr>IP = [], Hostname = ''lb.example.com''\<rparr>]) (\<lambda>hp. Inr []) :: string cluster"
  let ?one = "example_cluster [] (Inr [\<lparr>IP = ''10.0.0.1'', Hostname = []\<rparr>]) (\<lambda>hp. Inr []) :: string cluster"
  let ?down = "example_cluster [] (Inl (Failure ''timeout'')) (\<lambda>hp. Inr []) :: string cluster"
  let ?new = "example_cluster [] (Inr []) (\<lambda>hp. Inr []) :: string cluster"
  have built: "NewContourHTTPProxySource ?p ?new ''heptio-contour/contour'' [] [] [] False False False
      = Inr ?sc"
    by (simp add: NewContourHTTPProxySource_def example_simps)
  have fallback: "resolveTargets ?p ?up ?sc Map.empty
      = (Inr [''10.0.0.1'', ''lb.example.com''], [ServiceGet ''heptio-contour'' ''contour''])"
    using target_resolution_fallback [where p = ?p and anns = Map.empty and sc = ?sc
        and lbNamespace = "''heptio-contour''" and lbName = "''contour''" and k = ?up
        and k' = ?new and service = "[]" and ns = "[]" and annFilter = "[]" and tmplText = "[]"
        and combine = False and ignore = False and health = False]
    by (simp add: example_simps)
  have annotation: "resolveTargets ?p ?one ?sc [''target'' \<mapsto> ''1.2.3.4,5.6.7.8'']
      = (Inr [''1.2.3.4'', ''5.6.7.8''], [])"
    using target_resolution_fallback [where p = ?p and anns = "[''target'' \<mapsto> ''1.2.3.4,5.6.7.8'']"
        and sc = ?sc and lbNamespace = "''heptio-contour''" and lbName = "''contour''" and k = ?one
        and k' = ?new and service = "[]" and ns = "[]" and annFilter = "[]" and tmplText = "[]"
        and combine = False and ignore = False and health = False]
    by (simp add: example_simps)
  have failure: "resolveTargets ?p ?down ?sc Map.empty
      = (Inr [], [ServiceGet ''heptio-contour'' ''contour'', LogWarn (Failure ''timeout'')])"
    using target_resolution_fallback [where p = ?p and anns = Map.empty and sc = ?sc
        and lbNamespace = "''heptio-contour''" and lbName = "''contour''" and k = ?down
        and k' = ?new and service = "[]" and ns = "[]" and annFilter = "[]" and tmplText = "[]"
        and combine = False and ignore = False and health = False]
    by (simp add: example_simps)
  from built fallback annotation failure show ?thesis by (intro conjI)
qed

subsection \<open>Resources that are skipped\<close>

text \<open>Claim C3. A resource whose controller annotation is present with a value other than
  the expected one, or whose status is not \<^verbatim>\<open>valid\<close>, is skipped: the loop body appends
  nothing for it, returns no error and only writes one debug line (no warning, no service
  lookup, no template execution); the loop over a list with such a resource gives what
  it gives without the resource, so the other resources are processed as before, and so
  does \<^verbatim>\<open>Endpoints\<close>.\<close>

theorem ineligible_resource_skipped:
  assumes "(\<exists>controller. Annotations hp (controllerAnnotationKey p) = Some controller \<and>
              controller \<noteq> controllerAnnotationValue p)
           \<or> Status_CurrentStatus hp \<noteq> ''valid''"
  shows "(\<exists>m. Endpoints_body p k sc hp = (Inr [], [LogDebug m]))
       \<and> contribution p k sc hp = []
       \<and> fst (Endpoints_loop p k sc (before @ hp # after) endpoints) =
           fst (Endpoints_loop p k sc (before @ after) endpoints)
       \<and> (ListHTTPProxies k (namespace sc) = Inr listed \<and>
          filterByAnnotations k sc listed = Inr (before @ hp # after) \<longrightarrow>
            fst (Endpoints p k sc) =
              map_sum id (map sortTargets) (fst (Endpoints_loop p k sc (before @ after) [])))"
proof -
  from assms obtain m where body: "Endpoints_body p k sc hp = (Inr [], [LogDebug m])"
    using Endpoints_body_skip by blast
  have one: "fst (Endpoints_loop p k sc (hp # after) acc) = fst (Endpoints_loop p k sc after acc)" for acc
    using body by (simp add: fst_Endpoints_loop_Cons del: Endpoints_loop.simps)
  have loop: "fst (Endpoints_loop p k sc (before @ hp # after) acc) =
              fst (Endpoints_loop p k sc (before @ after) acc)" for acc
    by (simp only: Endpoints_loop_append [of p k sc before] one)
  have "fst (Endpoints p k sc) =
          map_sum id (map sortTargets) (fst (Endpoints_loop p k sc (before @ after) []))"
    if "ListHTTPProxies k (namespace sc) = Inr listed"
      and "filterByAnnotations k sc listed = Inr (before @ hp # after)"
  proof -
    have "fst (Endpoints p k sc) =
            map_sum id (map sortTargets) (fst (Endpoints_loop p k sc (before @ hp # after) []))"
      using that by (simp add: Endpoints_def split: prod.splits sum.splits)
    with loop show ?thesis by simp
  qed
  with body loop show ?thesis
    by (simp add: contribution_def)
qed

text \<open>Of three resources, the one with a foreign controller annotation is skipped and the
  other two give their endpoints; a resource with status \<^verbatim>\<open>invalid\<close> contributes nothing
  either.\<close>

theorem ineligible_resource_skipped_witness:
  "contribution (spec_pkg example_codec)
      (example_cluster [] (Inr []) (\<lambda>hp. Inr [])) (example_source None False [])
      (example_proxy ''bad'' ''b.com'' [(''controller'', ''other''), (''target'', ''1.2.3.4'')] ''valid'') = []
   \<and> contribution (spec_pkg example_codec)
      (example_cluster [] (Inr []) (\<lambda>hp. Inr [])) (example_source None False [])
      (example_proxy ''down'' ''c.com'' [(''target'', ''1.2.3.4'')] ''invalid'') = []
   \<and> map_sum id (map DNSName)
       (fst (Endpoints (spec_pkg example_codec)
          (example_cluster
            [example_proxy ''foo'' ''a.com'' [(''target'', ''1.2.3.4'')] ''valid'',
             example_proxy ''bad'' ''b.com'' [(''controller'', ''other''), (''target'', ''1.2.3.4'')] ''valid'',
             example_proxy ''baz'' ''c.com'' [(''target'', ''5.6.7.8'')] ''valid'']
            (Inr []) (\<lambda>hp. Inr []))
          (example_source None False []))) = Inr [''a.com'', ''c.com'']"
proof -
  let ?p = "spec_pkg example_codec"
  let ?sc = "example_source None False []"
  let ?foo = "example_proxy ''foo'' ''a.com'' [(''target'', ''1.2.3.4'')] ''valid''"
  let ?bad = "example_proxy ''bad'' ''b.com'' [(''controller'', ''other''), (''target'', ''1.2.3.4'')] ''valid''"
  let ?baz = "example_proxy ''baz'' ''c.com'' [(''target'', ''5.6.7.8'')] ''valid''"
  let ?down = "example_proxy ''down'' ''c.com'' [(''target'', ''1.2.3.4'')] ''invalid''"
  let ?k = "example_cluster [?foo, ?bad, ?baz] (Inr []) (\<lambda>hp. Inr [])"
  have bad: "(\<exists>controller. Annotations ?bad (controllerAnnotationKey ?p) = Some controller \<and>
                controller \<noteq> controllerAnnotationValue ?p)
             \<or> Status_CurrentStatus ?bad \<noteq> ''valid''"
    by (simp add: example_simps)
  have down: "(\<exists>controller. Annotations ?down (controllerAnnotationKey ?p) = Some controller \<and>
                controller \<noteq> controllerAnnotationValue ?p)
             \<or> Status_CurrentStatus ?down \<noteq> ''valid''"
    by (simp add: example_simps)
  have listed: "ListHTTPProxies ?k (namespace ?sc) = Inr ([?foo] @ ?bad # [?baz])"
    by (simp add: example_simps)
  have filtered: "filterByAnnotations ?k ?sc ([?foo] @ ?bad # [?baz]) = Inr ([?foo] @ ?bad # [?baz])"
    by (simp add: filterByAnnotations_def example_simps)
  from ineligible_resource_skipped [OF bad, of ?k ?sc "[?foo]" "[?baz]" "[]" "[?foo] @ ?bad # [?baz]"]
    listed filtered
  have "fst (Endpoints ?p ?k ?sc) =
          map_sum id (map sortTargets) (fst (Endpoints_loop ?p ?k ?sc ([?foo] @ [?baz]) []))"
    by blast
  then have "map_sum id (map DNSName) (fst (Endpoints ?p ?k ?sc)) = Inr [''a.com'', ''c.com'']"
    by (simp add: model_simps example_simps)
  moreover from ineligible_resource_skipped [OF bad]
  have "contribution ?p (example_cluster [] (Inr []) (\<lambda>hp. Inr [])) ?sc ?bad = []"
    by blast
  moreover from ineligible_resource_skipped [OF down]
  have "contribution ?p (example_cluster [] (Inr []) (\<lambda>hp. Inr [])) ?sc ?down = []"
    by blast
  ultimately show ?thesis by blast
qed

subsection \<open>The hostname template\<close>

text \<open>Claim C4, as the code has it. For an eligible resource whose primary path returns the
  endpoints \<open>hpEndpoints\<close>: the template is executed if and only if a template is
  configured and combine mode is on or \<open>hpEndpoints\<close> is empty. When the template path
  returns \<open>tmplEndpoints\<close>, combine mode appends them to the primary endpoints, and without
  combine mode they take the place of the (empty) primary endpoints. With combine mode off
  and at least one primary endpoint the template is not executed and the primary
  endpoints are the result. The condition is on the endpoints of the primary path, not
  on the primary hostname (of which the comment at line 139 speaks): a resource with a
  hostname and no target has no primary endpoint.\<close>

theorem template_evaluation_condition:
  assumes "\<forall>controller. Annotations hp (controllerAnnotationKey p) = Some controller \<longrightarrow>
              controller = controllerAnnotationValue p"
    and "Status_CurrentStatus hp = ''valid''"
    and "fst (endpointsFromHttpProxy p k sc hp) = Inr hpEndpoints"
  shows "((\<exists>tmpl h. TemplateExecute tmpl h \<in> set (snd (Endpoints_body p k sc hp))) \<longleftrightarrow>
            fqdnTemplate sc \<noteq> None \<and> (combineFQDNAnnotation sc \<or> hpEndpoints = []))
       \<and> (\<forall>tmpl tmplEndpoints.
            fqdnTemplate sc = Some tmpl \<and>
            fst (endpointsFromTemplate p k sc tmpl hp) = Inr tmplEndpoints \<longrightarrow>
              (combineFQDNAnnotation sc \<longrightarrow>
                 fst (Endpoints_body p k sc hp) = Inr (setResourceLabel p hp (hpEndpoints @ tmplEndpoints)))
            \<and> (\<not> combineFQDNAnnotation sc \<and> hpEndpoints = [] \<longrightarrow>
                 fst (Endpoints_body p k sc hp) = Inr (setResourceLabel p hp tmplEndpoints)))
       \<and> (\<not> combineFQDNAnnotation sc \<and> hpEndpoints \<noteq> [] \<longrightarrow>
            (\<forall>tmpl h. TemplateExecute tmpl h \<notin> set (snd (Endpoints_body p k sc hp))) \<and>
            fst (Endpoints_body p k sc hp) = Inr (setResourceLabel p hp hpEndpoints))"
proof -
  note body = Endpoints_body_eligible [OF assms(1,2), of k sc]
  obtain tr where hpr: "endpointsFromHttpProxy p k sc hp = (Inr hpEndpoints, tr)"
    using assms(3) by (cases "endpointsFromHttpProxy p k sc hp") simp
  have tr: "TemplateExecute tmpl h \<notin> set tr" for tmpl h
    using endpointsFromHttpProxy_events [of "TemplateExecute tmpl h" p k sc hp] hpr by auto
  let ?cond = "(combineFQDNAnnotation sc \<or> hpEndpoints = []) \<and> fqdnTemplate sc \<noteq> None"
  have no: "TemplateExecute tmpl h \<notin> set (snd (Endpoints_generate p k sc hp))
            \<and> fst (Endpoints_generate p k sc hp) = Inr (setResourceLabel p hp hpEndpoints)"
    if "\<not> ?cond" for tmpl h
    using Endpoints_generate_plain [OF hpr that] tr by simp
  have yes: "TemplateExecute tmpl hp \<in> set (snd (Endpoints_generate p k sc hp))
            \<and> (\<forall>tmplEndpoints. fst (endpointsFromTemplate p k sc tmpl hp) = Inr tmplEndpoints \<longrightarrow>
                 fst (Endpoints_generate p k sc hp) = Inr (setResourceLabel p hp (hpEndpoints @ tmplEndpoints)))"
    if c: "combineFQDNAnnotation sc \<or> hpEndpoints = []" and tm: "fqdnTemplate sc = Some tmpl" for tmpl
  proof -
    obtain r' tr' where tp: "endpointsFromTemplate p k sc tmpl hp = (r', tr')"
      by (cases "endpointsFromTemplate p k sc tmpl hp")
    have ex: "TemplateExecute tmpl hp \<in> set tr'"
      using endpointsFromTemplate_events [of p k sc tmpl hp] tp by auto
    show ?thesis
    proof (cases r')
      case (Inl err)
      from Endpoints_generate_template_error [OF hpr c tm tp [unfolded Inl]] ex tp Inl
      show ?thesis by simp
    next
      case (Inr tmplEndpoints)
      from Endpoints_generate_template [OF hpr c tm tp [unfolded Inr]] ex tp Inr
      show ?thesis by simp
    qed
  qed
  have first: "(\<exists>tmpl h. TemplateExecute tmpl h \<in> set (snd (Endpoints_generate p k sc hp))) \<longleftrightarrow>
            fqdnTemplate sc \<noteq> None \<and> (combineFQDNAnnotation sc \<or> hpEndpoints = [])"
    using no yes by (cases "fqdnTemplate sc") blast+
  have second: "fst (Endpoints_generate p k sc hp) = Inr (setResourceLabel p hp (hpEndpoints @ tmplEndpoints))"
    if "fqdnTemplate sc = Some tmpl" "fst (endpointsFromTemplate p k sc tmpl hp) = Inr tmplEndpoints"
       "combineFQDNAnnotation sc \<or> hpEndpoints = []" for tmpl tmplEndpoints
    using yes that by blast
  have third: "(\<forall>tmpl h. TemplateExecute tmpl h \<notin> set (snd (Endpoints_generate p k sc hp))) \<and>
            fst (Endpoints_generate p k sc hp) = Inr (setResourceLabel p hp hpEndpoints)"
    if "\<not> combineFQDNAnnotation sc" "hpEndpoints \<noteq> []"
    using no that by blast
  from first second third show ?thesis
    unfolding body by (metis append_Nil)
qed

text \<open>A resource with the hostname \<^verbatim>\<open>a.com\<close> and a target, and a template that renders
  \<^verbatim>\<open>b.com\<close>: combine mode gives endpoints for both names; without combine mode the template
  is not executed and only \<^verbatim>\<open>a.com\<close> is returned.\<close>

theorem template_evaluation_condition_witness:
  "map_sum id (map DNSName)
     (fst (Endpoints_body (spec_pkg example_codec)
        (example_cluster [] (Inr []) (\<lambda>hp. Inr ''b.com''))
        (example_source (Some ''b.com'') True [])
        (example_proxy ''foo'' ''a.com'' [(''target'', ''1.2.3.4'')] ''valid'')))
     = Inr [''a.com'', ''b.com'']
   \<and> map_sum id (map DNSName)
     (fst (Endpoints_body (spec_pkg example_codec)
        (example_cluster [] (Inr []) (\<lambda>hp. Inr ''b.com''))
        (example_source (Some ''b.com'') False [])
        (example_proxy ''foo'' ''a.com'' [(''target'', ''1.2.3.4'')] ''valid'')))
     = Inr [''a.com'']
   \<and> TemplateExecute ''b.com'' (example_proxy ''foo'' ''a.com'' [(''target'', ''1.2.3.4'')] ''valid'')
       \<notin> set (snd (Endpoints_body (spec_pkg example_codec)
            (example_cluster [] (Inr []) (\<lambda>hp. Inr ''b.com''))
            (example_source (Some ''b.com'') False [])
            (example_proxy ''foo'' ''a.com'' [(''target'', ''1.2.3.4'')] ''valid'')))"
proof -
  let ?p = "spec_pkg example_codec"
  let ?k = "example_cluster [] (Inr []) (\<lambda>hp. Inr ''b.com'') :: string cluster"
  let ?on = "example_source (Some ''b.com'') True []"
  let ?off = "example_source (Some ''b.com'') False []"
  let ?foo = "example_proxy ''foo'' ''a.com'' [(''target'', ''1.2.3.4'')] ''valid''"
  have eligible: "\<forall>controller. Annotations ?foo (controllerAnnotationKey ?p) = Some controller \<longrightarrow>
                    controller = controllerAnnotationValue ?p"
    by (simp add: example_simps)
  have valid: "Status_CurrentStatus ?foo = ''valid''"
    by (simp add: example_simps)
  have primary_on: "fst (endpointsFromHttpProxy ?p ?k ?on ?foo) =
      Inr (projr (fst (endpointsFromHttpProxy ?p ?k ?on ?foo)))"
    by (simp add: model_simps example_simps)
  have primary_off: "fst (endpointsFromHttpProxy ?p ?k ?off ?foo) =
      Inr (projr (fst (endpointsFromHttpProxy ?p ?k ?off ?foo)))"
    by (simp add: model_simps example_simps)
  have some: "projr (fst (endpointsFromHttpProxy ?p ?k ?off ?foo)) \<noteq> []"
    by (simp add: model_simps example_simps)
  have tmpl_on: "fqdnTemplate ?on = Some ''b.com'' \<and>
      fst (endpointsFromTemplate ?p ?k ?on ''b.com'' ?foo) =
        Inr (projr (fst (endpointsFromTemplate ?p ?k ?on ''b.com'' ?foo)))"
    by (simp add: model_simps example_simps)
  have on: "combineFQDNAnnotation ?on" and off: "\<not> combineFQDNAnnotation ?off"
    by (simp_all add: example_simps)
  from template_evaluation_condition [OF eligible valid primary_on] tmpl_on on
  have "fst (Endpoints_body ?p ?k ?on ?foo) =
          Inr (setResourceLabel ?p ?foo (projr (fst (endpointsFromHttpProxy ?p ?k ?on ?foo)) @
                 projr (fst (endpointsFromTemplate ?p ?k ?on ''b.com'' ?foo))))"
    by blast
  then have both: "map_sum id (map DNSName) (fst (Endpoints_body ?p ?k ?on ?foo))
      = Inr [''a.com'', ''b.com'']"
    by (simp add: model_simps example_simps)
  from template_evaluation_condition [OF eligible valid primary_off] off some
  have none: "(\<forall>tmpl h. TemplateExecute tmpl h \<notin> set (snd (Endpoints_body ?p ?k ?off ?foo)))"
    and "fst (Endpoints_body ?p ?k ?off ?foo) =
          Inr (setResourceLabel ?p ?foo (projr (fst (endpointsFromHttpProxy ?p ?k ?off ?foo))))"
    by blast+
  then have "map_sum id (map DNSName) (fst (Endpoints_body ?p ?k ?off ?foo)) = Inr [''a.com'']"
    by (simp add: model_simps example_simps)
  with both none show ?thesis by blast
qed

text \<open>The claim's last sentence fails as it is worded, with "a non-empty primary hostname":
  an eligible resource with the hostname \<^verbatim>\<open>a.com\<close>, no target annotation and a load
  balancer whose lookup fails has no target, so its primary path gives no endpoint, and
  with combine mode off the template is executed.\<close>

theorem template_evaluation_counterexample:
  "Spec_VirtualHost (example_proxy ''foo'' ''a.com'' [] ''valid'') = Some \<lparr>Fqdn = ''a.com''\<rparr>
   \<and> Status_CurrentStatus (example_proxy ''foo'' ''a.com'' [] ''valid'') = ''valid''
   \<and> Annotations (example_proxy ''foo'' ''a.com'' [] ''valid'')
        (controllerAnnotationKey (spec_pkg example_codec)) = None
   \<and> \<not> combineFQDNAnnotation (example_source (Some ''{{.Name}}.example.com'') False [])
   \<and> TemplateExecute ''{{.Name}}.example.com'' (example_proxy ''foo'' ''a.com'' [] ''valid'')
       \<in> set (snd (Endpoints_body (spec_pkg example_codec)
            (example_cluster [] (Inl (Failure ''timeout'')) (\<lambda>hp. Inr (Name hp @ ''.example.com'')))
            (example_source (Some ''{{.Name}}.example.com'') False [])
            (example_proxy ''foo'' ''a.com'' [] ''valid'')))"
  by (simp add: model_simps example_simps)

subsection \<open>A template that fails\<close>

text \<open>Claim C5. A template render error is fatal for the whole pass: when the template is
  executed on a resource during \<^verbatim>\<open>Endpoints\<close> and the execution fails, \<^verbatim>\<open>Endpoints\<close> returns the
  error built from it and no endpoint list.\<close>

theorem template_failure_aborts_pass:
  assumes "TemplateExecute tmpl hp \<in> set (snd (Endpoints p k sc))"
    and "Execute k tmpl hp = Inl err"
  shows "fst (Endpoints p k sc) = Inl (TemplateFailure (Namespace hp) (Name hp) err)"
proof -
  from assms(1) obtain listed where l: "ListHTTPProxies k (namespace sc) = Inr listed"
    by (cases "ListHTTPProxies k (namespace sc)") (simp_all add: Endpoints_def)
  from assms(1) l obtain hps where f: "filterByAnnotations k sc listed = Inr hps"
    by (cases "filterByAnnotations k sc listed") (simp_all add: Endpoints_def)
  obtain r t where loop: "Endpoints_loop p k sc hps [] = (r, t)"
    by (cases "Endpoints_loop p k sc hps []")
  from assms(1) l f loop have "TemplateExecute tmpl hp \<in> set t"
    by (cases r) (simp_all add: Endpoints_def)
  with loop have "TemplateExecute tmpl hp \<in> set (snd (Endpoints_loop p k sc hps []))" by simp
  from Endpoints_loop_failure [OF this assms(2)] loop
  have "r = Inl (TemplateFailure (Namespace hp) (Name hp) err)" by simp
  with l f loop show ?thesis by (simp add: Endpoints_def)
qed

text \<open>The template fails on the second of three resources: the pass returns that error, and
  neither the endpoints of the first resource nor those of the third.\<close>

theorem template_failure_aborts_pass_witness:
  "Execute (example_cluster
        [example_proxy ''foo'' ''a.com'' [(''target'', ''1.2.3.4'')] ''valid'',
         example_proxy ''bar'' [] [(''target'', ''1.2.3.4'')] ''valid'',
         example_proxy ''baz'' ''c.com'' [(''target'', ''1.2.3.4'')] ''valid'']
        (Inr []) (\<lambda>hp. if Name hp = ''bar'' then Inl (Failure ''render'') else Inr ''t.com''))
      ''{{.Name}}'' (example_proxy ''bar'' [] [(''target'', ''1.2.3.4'')] ''valid'')
     = Inl (Failure ''render'')
   \<and> fst (Endpoints (spec_pkg example_codec)
       (example_cluster
        [example_proxy ''foo'' ''a.com'' [(''target'', ''1.2.3.4'')] ''valid'',
         example_proxy ''bar'' [] [(''target'', ''1.2.3.4'')] ''valid'',
         example_proxy ''baz'' ''c.com'' [(''target'', ''1.2.3.4'')] ''valid'']
        (Inr []) (\<lambda>hp. if Name hp = ''bar'' then Inl (Failure ''render'') else Inr ''t.com''))
       (example_source (Some ''{{.Name}}'') False []))
     = Inl (TemplateFailure ''default'' ''bar'' (Failure ''render''))"
proof -
  let ?p = "spec_pkg example_codec"
  let ?bar = "example_proxy ''bar'' [] [(''target'', ''1.2.3.4'')] ''valid''"
  let ?k = "example_cluster
        [example_proxy ''foo'' ''a.com'' [(''target'', ''1.2.3.4'')] ''valid'', ?bar,
         example_proxy ''baz'' ''c.com'' [(''target'', ''1.2.3.4'')] ''valid'']
        (Inr []) (\<lambda>hp. if Name hp = ''bar'' then Inl (Failure ''render'') else Inr ''t.com'')"
  let ?sc = "example_source (Some ''{{.Name}}'') False []"
  have executed: "TemplateExecute ''{{.Name}}'' ?bar \<in> set (snd (Endpoints ?p ?k ?sc))"
    by (simp add: model_simps example_simps)
  have fails: "Execute ?k ''{{.Name}}'' ?bar = Inl (Failure ''render'')"
    by (simp add: example_simps)
  from template_failure_aborts_pass [OF executed fails] fails show ?thesis
    by (simp add: example_simps)
qed

subsection \<open>The hostnames of the template\<close>

text \<open>Claim C6, as the code has it. When the template renders to \<open>hostnames\<close> and target
  resolution gives \<open>targets\<close>, the template path removes every space byte from the
  rendered string, splits it at the commas, takes one trailing period off each piece and
  passes each piece, empty or not, to \<^verbatim>\<open>endpointsForHostname\<close>, with the targets, the TTL, the
  provider-specific annotations and the set identifier that the primary path uses for
  the same resource (second conjunct). The pieces, joined by commas, are the rendered
  string without its spaces; no piece holds a comma or a space. A piece that ends with a
  period loses exactly that one; another piece is unchanged; so a piece that does not end
  with two periods is passed on without a trailing period.\<close>

theorem template_hostnames:
  assumes "Execute k tmpl hp = Inr hostnames"
    and "fst (resolveTargets p k sc (Annotations hp)) = Inr targets"
  shows "fst (endpointsFromTemplate p k sc tmpl hp) =
           Inr (concat (map (\<lambda>piece. endpointsForHostname p (TrimSuffix piece ''.'') targets
                               (fst (getTTLFromAnnotations p (Annotations hp)))
                               (fst (getProviderSpecificAnnotations p (Annotations hp)))
                               (snd (getProviderSpecificAnnotations p (Annotations hp))))
                         (Split (Replace_spaces hostnames) CHR '','')))
       \<and> (Status_CurrentStatus hp = ''valid'' \<longrightarrow>
            fst (endpointsFromHttpProxy p k sc hp) =
              Inr ((case Spec_VirtualHost hp of
                      None \<Rightarrow> []
                    | Some virtualHost \<Rightarrow>
                        if Fqdn virtualHost \<noteq> []
                        then endpointsForHostname p (Fqdn virtualHost) targets
                               (fst (getTTLFromAnnotations p (Annotations hp)))
                               (fst (getProviderSpecificAnnotations p (Annotations hp)))
                               (snd (getProviderSpecificAnnotations p (Annotations hp)))
                        else []) @
                   (if ignoreHostnameAnnotation sc then []
                    else concat (map (\<lambda>hostname. endpointsForHostname p hostname targets
                                        (fst (getTTLFromAnnotations p (Annotations hp)))
                                        (fst (getProviderSpecificAnnotations p (Annotations hp)))
                                        (snd (getProviderSpecificAnnotations p (Annotations hp))))
                                  (getHostnamesFromAnnotations p (Annotations hp))))))
       \<and> Join (Split (Replace_spaces hostnames) CHR '','') CHR '','' = filter (\<lambda>c. c \<noteq> CHR '' '') hostnames
       \<and> (\<forall>piece \<in> set (Split (Replace_spaces hostnames) CHR '','').
            CHR '','' \<notin> set piece \<and> CHR '' '' \<notin> set piece
            \<and> (\<forall>s. piece = s @ ''.'' \<longrightarrow> TrimSuffix piece ''.'' = s)
            \<and> ((\<nexists>s. piece = s @ ''.'') \<longrightarrow> TrimSuffix piece ''.'' = piece)
            \<and> ((\<nexists>s. piece = s @ ''..'') \<longrightarrow> (\<nexists>s. TrimSuffix piece ''.'' = s @ ''.'')))"
proof -
  have spaces: "CHR '' '' \<notin> set piece"
    if "piece \<in> set (Split (Replace_spaces hostnames) CHR '','')" for piece
    using Split_subset [OF that] by (auto simp: Replace_spaces_def)
  show ?thesis
    using endpointsFromTemplate_rendered [OF assms] endpointsFromHttpProxy_valid [OF _ assms(2)]
      spaces Split_no_sep TrimSuffix_one_period TrimSuffix_no_period
    by (simp add: Join_Split Replace_spaces_def [symmetric] TrimSuffix_period)
qed
text \<open>A template that renders \<^verbatim>\<open>a.com., b.com\<close> gives endpoints for \<^verbatim>\<open>a.com\<close> and \<^verbatim>\<open>b.com\<close>, with the
  target and the TTL of the resource's annotations.\<close>

theorem template_hostnames_witness:
  "Execute (example_cluster [] (Inr []) (\<lambda>hp. Inr ''a.com., b.com'')) ''t''
     (example_proxy ''foo'' [] [(''target'', ''1.2.3.4''), (''ttl'', ''300'')] ''valid'') = Inr ''a.com., b.com''
   \<and> map_sum id (map (\<lambda>ep. (DNSName ep, Targets ep, RecordTTL ep)))
       (fst (endpointsFromTemplate (spec_pkg example_codec)
          (example_cluster [] (Inr []) (\<lambda>hp. Inr ''a.com., b.com''))
          (example_source (Some ''t'') False []) ''t''
          (example_proxy ''foo'' [] [(''target'', ''1.2.3.4''), (''ttl'', ''300'')] ''valid'')))
     = Inr [(''a.com'', [''1.2.3.4''], 300), (''b.com'', [''1.2.3.4''], 300)]"
proof -
  let ?p = "spec_pkg example_codec"
  let ?k = "example_cluster [] (Inr []) (\<lambda>hp. Inr ''a.com., b.com'') :: string cluster"
  let ?sc = "example_source (Some ''t'') False []"
  let ?foo = "example_proxy ''foo'' [] [(''target'', ''1.2.3.4''), (''ttl'', ''300'')] ''valid''"
  have rendered: "Execute ?k ''t'' ?foo = Inr ''a.com., b.com''"
    by (simp add: example_simps)
  have targets: "fst (resolveTargets ?p ?k ?sc (Annotations ?foo)) = Inr [''1.2.3.4'']"
    by (simp add: model_simps example_simps)
  from template_hostnames [OF rendered targets]
  have "fst (endpointsFromTemplate ?p ?k ?sc ''t'' ?foo) =
           Inr (concat (map (\<lambda>piece. endpointsForHostname ?p (TrimSuffix piece ''.'') [''1.2.3.4'']
                               (fst (getTTLFromAnnotations ?p (Annotations ?foo)))
                               (fst (getProviderSpecificAnnotations ?p (Annotations ?foo)))
                               (snd (getProviderSpecificAnnotations ?p (Annotations ?foo))))
                         (Split (Replace_spaces ''a.com., b.com'') CHR '','')))"
    by blast
  then have "map_sum id (map (\<lambda>ep. (DNSName ep, Targets ep, RecordTTL ep)))
       (fst (endpointsFromTemplate ?p ?k ?sc ''t'' ?foo))
     = Inr [(''a.com'', [''1.2.3.4''], 300), (''b.com'', [''1.2.3.4''], 300)]"
    by (simp add: example_simps)
  with rendered show ?thesis by blast
qed

text \<open>The claim fails as it is worded. A rendered string \<^verbatim>\<open>a.com...\<close>, then a comma, a space, a
  tab, \<^verbatim>\<open>b.com\<close> and a last comma gives three hostnames: \<^verbatim>\<open>a.com..\<close>, which keeps trailing
  periods (one period is taken off, not all); the tab followed by \<^verbatim>\<open>b.com\<close> (only the space
  is removed, other white space stays); and the empty string after the last comma, which
  is assembled too.\<close>

theorem template_hostnames_counterexample:
  "map_sum id (map DNSName)
     (fst (endpointsFromTemplate (spec_pkg example_codec)
        (example_cluster [] (Inr []) (\<lambda>hp. Inr (''a.com..., '' @ [CHR 0x09] @ ''b.com,'')))
        (example_source (Some ''t'') False []) ''t''
        (example_proxy ''foo'' [] [(''target'', ''1.2.3.4'')] ''valid'')))
   = Inr [''a.com..'', CHR 0x09 # ''b.com'', []]"
  by (simp add: model_simps example_simps)

subsection \<open>Sorted targets and determinism\<close>

text \<open>Claim C7. Every endpoint that \<^verbatim>\<open>Endpoints\<close> returns has its targets in ascending order
  (sorting it again changes nothing). \<^verbatim>\<open>Endpoints\<close> is a function of the source, the resources
  and the answers of the collaborators, so two passes over the same snapshot return the
  same list; and the list does not depend on the order in which the service lookup
  delivers the ingress entries: when the assembler \<^verbatim>\<open>endpointsForHostname\<close> uses the order of
  the targets it is given for nothing but the order of the targets of its endpoints, a
  lookup that answers with the ingress lists permuted gives the same result, endpoint
  for endpoint and error for error.\<close>

theorem deterministic_sorted_output:
  "(\<forall>endpoints. fst (Endpoints p k sc) = Inr endpoints \<longrightarrow>
       (\<forall>ep \<in> set endpoints. sorted (Targets ep) \<and> sortTargets ep = ep))
   \<and> ((\<forall>hostname ts ts' ttl ps sid. mset ts = mset ts' \<longrightarrow>
          map sortTargets (endpointsForHostname p hostname ts ttl ps sid) =
          map sortTargets (endpointsForHostname p hostname ts' ttl ps sid))
      \<and> (\<forall>ns n. map_sum id mset (GetService k ns n) = map_sum id mset (lookup ns n))
      \<longrightarrow> fst (Endpoints p (k\<lparr>GetService := lookup\<rparr>) sc) = fst (Endpoints p k sc))"
proof (intro conjI allI impI)
  fix endpoints
  assume "fst (Endpoints p k sc) = Inr endpoints"
  then obtain res where "endpoints = map sortTargets res"
    by (auto simp: fst_Endpoints map_sum_Inr_iff split: sum.splits)
  then show "\<forall>ep \<in> set endpoints. sorted (Targets ep) \<and> sortTargets ep = ep"
    by (auto simp: sortTargets_sorted sortTargets_idem)
next
  assume a: "(\<forall>hostname ts ts' ttl ps sid. mset ts = mset ts' \<longrightarrow>
          map sortTargets (endpointsForHostname p hostname ts ttl ps sid) =
          map sortTargets (endpointsForHostname p hostname ts' ttl ps sid))
      \<and> (\<forall>ns n. map_sum id mset (GetService k ns n) = map_sum id mset (lookup ns n))"
  let ?k' = "k\<lparr>GetService := lookup\<rparr>"
  have filter: "filterByAnnotations ?k' sc listed = filterByAnnotations k sc listed" for listed
    by (simp add: filterByAnnotations_def split: sum.splits)
  have loop: "map_sum id (map sortTargets) (fst (Endpoints_loop p ?k' sc hps [])) =
              map_sum id (map sortTargets) (fst (Endpoints_loop p k sc hps []))" for hps
    using Endpoints_loop_order [of p k lookup "[]" "[]" sc hps] a by blast
  show "fst (Endpoints p ?k' sc) = fst (Endpoints p k sc)"
    by (simp add: fst_Endpoints filter loop split: sum.splits)
qed

text \<open>A load balancer with two addresses and a hostname: whichever way round the lookup
  delivers the two ingress entries, the pass returns the same two endpoints, the
  addresses in ascending order.\<close>

theorem deterministic_sorted_output_witness:
  "fst (Endpoints (spec_pkg example_codec)
      ((example_cluster [example_proxy ''foo'' ''a.com'' [] ''valid'']
         (Inr [\<lparr>IP = ''10.0.0.2'', Hostname = []\<rparr>, \<lparr>IP = ''10.0.0.1'', Hostname = ''lb.example.com''\<rparr>])
         (\<lambda>hp. Inr []))
       \<lparr>GetService := GetService (example_cluster []
         (Inr [\<lparr>IP = ''10.0.0.1'', Hostname = ''lb.example.com''\<rparr>, \<lparr>IP = ''10.0.0.2'', Hostname = []\<rparr>])
         (\<lambda>hp. Inr []) :: string cluster)\<rparr>)
      (example_source None False []))
   = fst (Endpoints (spec_pkg example_codec)
      (example_cluster [example_proxy ''foo'' ''a.com'' [] ''valid'']
         (Inr [\<lparr>IP = ''10.0.0.2'', Hostname = []\<rparr>, \<lparr>IP = ''10.0.0.1'', Hostname = ''lb.example.com''\<rparr>])
         (\<lambda>hp. Inr []))
      (example_source None False []))
   \<and> map_sum id (map (\<lambda>ep. (DNSName ep, Targets ep)))
      (fst (Endpoints (spec_pkg example_codec)
        (example_cluster [example_proxy ''foo'' ''a.com'' [] ''valid'']
         (Inr [\<lparr>IP = ''10.0.0.2'', Hostname = []\<rparr>, \<lparr>IP = ''10.0.0.1'', Hostname = ''lb.example.com''\<rparr>])
         (\<lambda>hp. Inr []))
        (example_source None False [])))
     = Inr [(''a.com'', [''10.0.0.1'', ''10.0.0.2'']), (''a.com'', [''lb.example.com''])]"
proof -
  let ?p = "spec_pkg example_codec"
  let ?sc = "example_source None False []"
  let ?k = "example_cluster [example_proxy ''foo'' ''a.com'' [] ''valid'']
         (Inr [\<lparr>IP = ''10.0.0.2'', Hostname = []\<rparr>, \<lparr>IP = ''10.0.0.1'', Hostname = ''lb.example.com''\<rparr>])
         (\<lambda>hp. Inr []) :: string cluster"
  let ?lookup = "GetService (example_cluster []
         (Inr [\<lparr>IP = ''10.0.0.1'', Hostname = ''lb.example.com''\<rparr>, \<lparr>IP = ''10.0.0.2'', Hostname = []\<rparr>])
         (\<lambda>hp. Inr []) :: string cluster)"
  have blind: "\<forall>hostname ts ts' ttl ps sid. mset ts = mset ts' \<longrightarrow>
          map sortTargets (endpointsForHostname ?p hostname ts ttl ps sid) =
          map sortTargets (endpointsForHostname ?p hostname ts' ttl ps sid)"
  proof (intro allI impI)
    fix hostname ts ts' ttl ps sid
    assume "mset ts = mset (ts' :: string list)"
    then have "map sortTargets (spec_endpointsForHostname example_codec hostname ts ttl ps sid) =
               map sortTargets (spec_endpointsForHostname example_codec hostname ts' ttl ps sid)"
      by (rule spec_endpointsForHostname_order)
    then show "map sortTargets (endpointsForHostname ?p hostname ts ttl ps sid) =
               map sortTargets (endpointsForHostname ?p hostname ts' ttl ps sid)"
      by (simp only: spec_pkg_def pkg.simps)
  qed
  have perm: "\<forall>ns n. map_sum id mset (GetService ?k ns n) = map_sum id mset (?lookup ns n)"
  proof (intro allI)
    fix ns n
    have "mset [\<lparr>IP = ''10.0.0.2'', Hostname = []\<rparr>, \<lparr>IP = ''10.0.0.1'', Hostname = ''lb.example.com''\<rparr>]
        = mset [\<lparr>IP = ''10.0.0.1'', Hostname = ''lb.example.com''\<rparr>, \<lparr>IP = ''10.0.0.2'', Hostname = []\<rparr>]"
      by (simp only: mset.simps add_mset_commute)
    then show "map_sum id mset (GetService ?k ns n) = map_sum id mset (?lookup ns n)"
      by (simp add: example_cluster_def)
  qed
  have sorted: "map_sum id (map (\<lambda>ep. (DNSName ep, Targets ep))) (fst (Endpoints ?p ?k ?sc))
     = Inr [(''a.com'', [''10.0.0.1'', ''10.0.0.2'']), (''a.com'', [''lb.example.com''])]"
    by (simp add: model_simps example_simps)
  have "fst (Endpoints ?p (?k\<lparr>GetService := ?lookup\<rparr>) ?sc) = fst (Endpoints ?p ?k ?sc)"
    by (rule deterministic_sorted_output [of ?p ?k ?sc ?lookup, THEN conjunct2, rule_format,
          OF conjI [OF blind perm]])
  then show ?thesis using sorted by (rule conjI)
qed

subsection \<open>The annotation filter\<close>

text \<open>Claim C8. When the filter expression does not parse (or does not convert to a
  selector), \<^verbatim>\<open>filterByAnnotations\<close> returns the error, and \<^verbatim>\<open>Endpoints\<close> returns it with no effect
  at all: no resource has been processed. When the expression gives the empty selector,
  as the selector library does for the empty expression, the candidate list is returned
  unchanged; another selector keeps the resources whose annotations it matches, in
  order. When the selector matches none of the candidates the filtered list is empty
  and \<^verbatim>\<open>Endpoints\<close> returns the empty list, no error and no effect. (An empty selector matches
  everything, so it matches none of the candidates only when there is none.)\<close>

theorem annotation_filtering:
  "((ParseToLabelSelector k (annotationFilter sc) = Inl err
      \<or> (\<exists>labelSelector. ParseToLabelSelector k (annotationFilter sc) = Inr labelSelector \<and>
            LabelSelectorAsSelector k labelSelector = Inl err)) \<longrightarrow>
       filterByAnnotations k sc hps = Inl err
       \<and> (ListHTTPProxies k (namespace sc) = Inr hps \<longrightarrow> Endpoints p k sc = (Inl err, [])))
   \<and> (ParseToLabelSelector k (annotationFilter sc) = Inr labelSelector \<and>
      LabelSelectorAsSelector k labelSelector = Inr selector \<longrightarrow>
        (Empty selector \<longrightarrow> filterByAnnotations k sc hps = Inr hps)
      \<and> (\<not> Empty selector \<longrightarrow>
           filterByAnnotations k sc hps = Inr (filter (\<lambda>hp. Matches selector (Annotations hp)) hps))
      \<and> ((\<forall>hp \<in> set hps. \<not> Matches selector (Annotations hp)) \<and>
          (Empty selector \<longrightarrow> (\<forall>hp \<in> set hps. Matches selector (Annotations hp))) \<longrightarrow>
           filterByAnnotations k sc hps = Inr []
           \<and> (ListHTTPProxies k (namespace sc) = Inr hps \<longrightarrow> Endpoints p k sc = (Inr [], []))))"
proof (intro conjI impI)
  assume "ParseToLabelSelector k (annotationFilter sc) = Inl err
      \<or> (\<exists>labelSelector. ParseToLabelSelector k (annotationFilter sc) = Inr labelSelector \<and>
            LabelSelectorAsSelector k labelSelector = Inl err)"
  then show f: "filterByAnnotations k sc hps = Inl err"
    by (auto simp: filterByAnnotations_def)
  assume "ListHTTPProxies k (namespace sc) = Inr hps"
  with f show "Endpoints p k sc = (Inl err, [])"
    by (simp add: Endpoints_def)
next
  assume "ParseToLabelSelector k (annotationFilter sc) = Inr labelSelector \<and>
      LabelSelectorAsSelector k labelSelector = Inr selector" and "Empty selector"
  then show "filterByAnnotations k sc hps = Inr hps"
    by (simp add: filterByAnnotations_def)
next
  assume "ParseToLabelSelector k (annotationFilter sc) = Inr labelSelector \<and>
      LabelSelectorAsSelector k labelSelector = Inr selector" and "\<not> Empty selector"
  then show "filterByAnnotations k sc hps = Inr (filter (\<lambda>hp. Matches selector (Annotations hp)) hps)"
    by (simp add: filterByAnnotations_def)
next
  assume parsed: "ParseToLabelSelector k (annotationFilter sc) = Inr labelSelector \<and>
      LabelSelectorAsSelector k labelSelector = Inr selector"
    and none: "(\<forall>hp \<in> set hps. \<not> Matches selector (Annotations hp)) \<and>
          (Empty selector \<longrightarrow> (\<forall>hp \<in> set hps. Matches selector (Annotations hp)))"
  from none have "Empty selector \<Longrightarrow> hps = []"
    by (cases hps) auto
  moreover from none have "filter (\<lambda>hp. Matches selector (Annotations hp)) hps = []"
    by (simp add: filter_empty_conv)
  ultimately show f: "filterByAnnotations k sc hps = Inr []"
    using parsed by (auto simp: filterByAnnotations_def)
  assume "ListHTTPProxies k (namespace sc) = Inr hps"
  with f show "Endpoints p k sc = (Inr [], [])"
    by (simp add: Endpoints_def)
qed

text \<open>A filter with a syntax error fails the pass before any resource is looked at; the
  empty filter keeps the candidate; a filter \<^verbatim>\<open>team=dns\<close> that no resource satisfies gives the
  empty list.\<close>

theorem annotation_filtering_witness:
  "Endpoints (spec_pkg example_codec)
     (example_cluster [example_proxy ''foo'' ''a.com'' [(''target'', ''1.2.3.4'')] ''valid'']
        (Inr []) (\<lambda>hp. Inr []))
     (example_source None False ''team!'') = (Inl (Failure ''parse error''), [])
   \<and> filterByAnnotations
     (example_cluster [] (Inr []) (\<lambda>hp. Inr []))
     (example_source None False [])
     [example_proxy ''foo'' ''a.com'' [(''target'', ''1.2.3.4'')] ''valid'']
     = Inr [example_proxy ''foo'' ''a.com'' [(''target'', ''1.2.3.4'')] ''valid'']
   \<and> Endpoints (spec_pkg example_codec)
     (example_cluster [example_proxy ''foo'' ''a.com'' [(''target'', ''1.2.3.4'')] ''valid'']
        (Inr []) (\<lambda>hp. Inr []))
     (example_source None False ''team=dns'') = (Inr [], [])"
proof -
  let ?p = "spec_pkg example_codec"
  let ?foo = "example_proxy ''foo'' ''a.com'' [(''target'', ''1.2.3.4'')] ''valid''"
  let ?k = "example_cluster [?foo] (Inr []) (\<lambda>hp. Inr []) :: string cluster"
  let ?unfiltered = "example_cluster [] (Inr []) (\<lambda>hp. Inr []) :: string cluster"
  let ?bad = "example_source None False ''team!''"
  let ?all = "example_source None False []"
  let ?team = "example_source None False ''team=dns''"
  let ?sel = "\<lparr>Empty = False, Matches = (\<lambda>anns. anns ''team'' = Some ''dns'')\<rparr>"
  have unparsable: "ParseToLabelSelector ?k (annotationFilter ?bad) = Inl (Failure ''parse error'')"
    by (simp add: example_simps)
  have listed: "ListHTTPProxies ?k (namespace ?bad) = Inr [?foo]"
    "ListHTTPProxies ?k (namespace ?team) = Inr [?foo]"
    by (simp_all add: example_simps)
  have empty: "ParseToLabelSelector ?unfiltered (annotationFilter ?all) = Inr [] \<and>
      LabelSelectorAsSelector ?unfiltered [] = Inr \<lparr>Empty = True, Matches = (\<lambda>anns. True)\<rparr>"
    by (simp add: example_simps)
  have team: "ParseToLabelSelector ?k (annotationFilter ?team) = Inr ''team=dns'' \<and>
      LabelSelectorAsSelector ?k ''team=dns'' = Inr ?sel"
    by (simp add: example_simps)
  have none: "(\<forall>hp \<in> set [?foo]. \<not> Matches ?sel (Annotations hp)) \<and>
          (Empty ?sel \<longrightarrow> (\<forall>hp \<in> set [?foo]. Matches ?sel (Annotations hp)))"
    by (simp add: example_simps)
  have one: "Endpoints ?p ?k ?bad = (Inl (Failure ''parse error''), [])"
    using annotation_filtering [of ?k ?bad "Failure ''parse error''" "[?foo]" ?p] unparsable listed(1)
    by blast
  have two: "filterByAnnotations ?unfiltered ?all [?foo] = Inr [?foo]"
    using annotation_filtering [of ?unfiltered ?all _ "[?foo]" ?p "[]" "\<lparr>Empty = True, Matches = (\<lambda>anns. True)\<rparr>"]
      empty
    by simp
  have three: "Endpoints ?p ?k ?team = (Inr [], [])"
    using annotation_filtering [of ?k ?team _ "[?foo]" ?p "''team=dns''" ?sel] team none listed(2)
    by blast
  from one two three show ?thesis by (intro conjI)
qed

subsection \<open>A TTL annotation that does not parse\<close>

text \<open>Claim C9, for the annotation codec and the assembler as the specification describes
  them. For a resource whose TTL annotation does not parse: the codec returns the unset
  TTL together with an error; both paths log that error as a warning; the loop body
  returns what it returns with a codec that answers "unset" without any error, so the
  failure aborts nothing and the endpoints are generated; every endpoint the resource
  contributes has the unset TTL. The last conjunct holds for the whole pass: the errors
  of the codec have no part in the result of \<^verbatim>\<open>Endpoints\<close>.\<close>

theorem malformed_ttl_not_fatal:
  assumes "Annotations hp (ttlAnnotationKey c) = Some v" and "parseTTL c v = None"
  shows "getTTLFromAnnotations (spec_pkg c) (Annotations hp) =
           (ttlUnset, Some (Failure (''invalid TTL: '' @ v)))
       \<and> (Status_CurrentStatus hp = ''valid'' \<longrightarrow>
            LogWarn (Failure (''invalid TTL: '' @ v))
              \<in> set (snd (endpointsFromHttpProxy (spec_pkg c) k sc hp)))
       \<and> (\<forall>hostnames. Execute k tmpl hp = Inr hostnames \<longrightarrow>
            LogWarn (Failure (''invalid TTL: '' @ v))
              \<in> set (snd (endpointsFromTemplate (spec_pkg c) k sc tmpl hp)))
       \<and> fst (Endpoints_body (spec_pkg c) k sc hp) =
           fst (Endpoints_body ((spec_pkg c)\<lparr>getTTLFromAnnotations := \<lambda>anns. (ttlUnset, None)\<rparr>) k sc hp)
       \<and> (\<forall>ep \<in> set (contribution (spec_pkg c) k sc hp). RecordTTL ep = ttlUnset)
       \<and> fst (Endpoints (spec_pkg c) k sc) =
           fst (Endpoints ((spec_pkg c)\<lparr>getTTLFromAnnotations :=
                  \<lambda>anns. (fst (getTTLFromAnnotations (spec_pkg c) anns), None)\<rparr>) k sc)"
proof -
  let ?p = "spec_pkg c"
  have ttl: "getTTLFromAnnotations ?p (Annotations hp) = (ttlUnset, Some (Failure (''invalid TTL: '' @ v)))"
    using assms by (simp add: spec_pkg_def spec_getTTLFromAnnotations_def)
  have unset: "fst ((\<lambda>anns. (ttlUnset, None :: error option)) (Annotations hp)) =
               fst (getTTLFromAnnotations ?p (Annotations hp))"
    using ttl by simp
  have body: "fst (Endpoints_body ?p k sc hp) =
      fst (Endpoints_body (?p\<lparr>getTTLFromAnnotations := \<lambda>anns. (ttlUnset, None)\<rparr>) k sc hp)"
    by (rule Endpoints_body_ttl [where g = "\<lambda>anns. (ttlUnset, None)" and hp = hp and p = ?p,
          OF unset, symmetric])
  have ttls: "\<forall>ep \<in> set (contribution ?p k sc hp). RecordTTL ep = ttlUnset"
    using contribution_RecordTTL [OF spec_endpointsForHostname_RecordTTL, of _ c k sc hp] ttl
    by simp
  have pass: "fst (Endpoints ?p k sc) =
      fst (Endpoints (?p\<lparr>getTTLFromAnnotations :=
             \<lambda>anns. (fst (getTTLFromAnnotations ?p anns), None)\<rparr>) k sc)"
    by (rule Endpoints_ttl [where g = "\<lambda>anns. (fst (getTTLFromAnnotations ?p anns), None)"
          and p = ?p, symmetric]) simp
  from ttl body ttls pass
    endpointsFromHttpProxy_warns [OF ttl] endpointsFromTemplate_warns [OF ttl]
  show ?thesis by blast
qed

text \<open>A resource with the TTL annotation \<^verbatim>\<open>abc\<close>: the warning is logged and the endpoint is
  returned, with TTL -1.\<close>

theorem malformed_ttl_not_fatal_witness:
  "getTTLFromAnnotations (spec_pkg example_codec)
      (Annotations (example_proxy ''foo'' ''a.com'' [(''ttl'', ''abc''), (''target'', ''1.2.3.4'')] ''valid''))
     = (- 1, Some (Failure ''invalid TTL: abc''))
   \<and> LogWarn (Failure ''invalid TTL: abc'')
       \<in> set (snd (endpointsFromHttpProxy (spec_pkg example_codec)
            (example_cluster [] (Inr []) (\<lambda>hp. Inr [])) (example_source None False [])
            (example_proxy ''foo'' ''a.com'' [(''ttl'', ''abc''), (''target'', ''1.2.3.4'')] ''valid'')))
   \<and> map_sum id (map (\<lambda>ep. (DNSName ep, Targets ep, RecordTTL ep)))
       (fst (Endpoints (spec_pkg example_codec)
          (example_cluster
            [example_proxy ''foo'' ''a.com'' [(''ttl'', ''abc''), (''target'', ''1.2.3.4'')] ''valid'']
            (Inr []) (\<lambda>hp. Inr []))
          (example_source None False [])))
     = Inr [(''a.com'', [''1.2.3.4''], - 1)]"
proof -
  let ?p = "spec_pkg example_codec"
  let ?foo = "example_proxy ''foo'' ''a.com'' [(''ttl'', ''abc''), (''target'', ''1.2.3.4'')] ''valid''"
  let ?none = "example_cluster [] (Inr []) (\<lambda>hp. Inr []) :: string cluster"
  let ?sc = "example_source None False []"
  have key: "Annotations ?foo (ttlAnnotationKey example_codec) = Some ''abc''"
    by (simp add: example_simps)
  have malformed: "parseTTL example_codec ''abc'' = None"
    by (simp add: example_simps)
  have valid: "Status_CurrentStatus ?foo = ''valid''"
    by (simp add: example_simps)
  note inst = malformed_ttl_not_fatal [OF key malformed, of ?none ?sc "[]"]
  from inst have one: "getTTLFromAnnotations ?p (Annotations ?foo) = (- 1, Some (Failure ''invalid TTL: abc''))"
    by (simp add: ttlUnset_def)
  from inst valid have two: "LogWarn (Failure ''invalid TTL: abc'')
       \<in> set (snd (endpointsFromHttpProxy ?p ?none ?sc ?foo))"
    by simp
  have three: "map_sum id (map (\<lambda>ep. (DNSName ep, Targets ep, RecordTTL ep)))
       (fst (Endpoints ?p (example_cluster [?foo] (Inr []) (\<lambda>hp. Inr [])) ?sc))
     = Inr [(''a.com'', [''1.2.3.4''], - 1)]"
    by (simp add: model_simps example_simps)
  from one two three show ?thesis by (intro conjI)
qed

subsection \<open>A resource without the controller annotation\<close>

text \<open>Claim C10. A resource without the controller annotation and with status \<^verbatim>\<open>valid\<close> is
  eligible: the loop body is the generation of its endpoints, it writes none of the two
  skip lines, and without a template it appends the endpoints of the primary path,
  labelled.\<close>

theorem absent_controller_annotation_eligible:
  assumes "Annotations hp (controllerAnnotationKey p) = None"
    and "Status_CurrentStatus hp = ''valid''"
  shows "Endpoints_body p k sc hp = Endpoints_generate p k sc hp
       \<and> (\<forall>m \<in> set (snd (Endpoints_body p k sc hp)).
            (\<forall>ns n c v. m \<noteq> LogDebug (SkipController ns n c v)) \<and>
            (\<forall>ns n. m \<noteq> LogDebug (SkipNotValid ns n)))
       \<and> (\<forall>hpEndpoints. fqdnTemplate sc = None \<and>
            fst (endpointsFromHttpProxy p k sc hp) = Inr hpEndpoints \<longrightarrow>
              fst (Endpoints_body p k sc hp) = Inr (setResourceLabel p hp hpEndpoints))"
proof -
  have eq: "Endpoints_body p k sc hp = Endpoints_generate p k sc hp"
    using assms by (simp add: Endpoints_body_def)
  have "fst (Endpoints_generate p k sc hp) = Inr (setResourceLabel p hp hpEndpoints)"
    if none: "fqdnTemplate sc = None"
      and primary: "fst (endpointsFromHttpProxy p k sc hp) = Inr hpEndpoints"
    for hpEndpoints
  proof -
    obtain tr where "endpointsFromHttpProxy p k sc hp = (Inr hpEndpoints, tr)"
      using primary by (cases "endpointsFromHttpProxy p k sc hp") simp
    from Endpoints_generate_plain [OF this] none show ?thesis by simp
  qed
  moreover have "(\<forall>ns n c v. m \<noteq> LogDebug (SkipController ns n c v)) \<and>
            (\<forall>ns n. m \<noteq> LogDebug (SkipNotValid ns n))"
    if "m \<in> set (snd (Endpoints_generate p k sc hp))" for m
    using Endpoints_generate_events [OF that] by auto
  ultimately show ?thesis using eq by simp
qed

text \<open>A valid resource without the controller annotation gives its endpoint.\<close>

theorem absent_controller_annotation_eligible_witness:
  "Annotations (example_proxy ''foo'' ''a.com'' [(''target'', ''1.2.3.4'')] ''valid'')
     (controllerAnnotationKey (spec_pkg example_codec)) = None
   \<and> Endpoints_body (spec_pkg example_codec) (example_cluster [] (Inr []) (\<lambda>hp. Inr []))
       (example_source None False [])
       (example_proxy ''foo'' ''a.com'' [(''target'', ''1.2.3.4'')] ''valid'')
     = Endpoints_generate (spec_pkg example_codec) (example_cluster [] (Inr []) (\<lambda>hp. Inr []))
       (example_source None False [])
       (example_proxy ''foo'' ''a.com'' [(''target'', ''1.2.3.4'')] ''valid'')
   \<and> map_sum id (map (\<lambda>ep. (DNSName ep, Targets ep, Labels ep ''resource'')))
       (fst (Endpoints_body (spec_pkg example_codec) (example_cluster [] (Inr []) (\<lambda>hp. Inr []))
          (example_source None False [])
          (example_proxy ''foo'' ''a.com'' [(''target'', ''1.2.3.4'')] ''valid'')))
     = Inr [(''a.com'', [''1.2.3.4''], Some ''hp/default/foo'')]"
proof -
  let ?p = "spec_pkg example_codec"
  let ?k = "example_cluster [] (Inr []) (\<lambda>hp. Inr []) :: string cluster"
  let ?sc = "example_source None False []"
  let ?foo = "example_proxy ''foo'' ''a.com'' [(''target'', ''1.2.3.4'')] ''valid''"
  have absent: "Annotations ?foo (controllerAnnotationKey ?p) = None"
    by (simp add: example_simps)
  have valid: "Status_CurrentStatus ?foo = ''valid''"
    by (simp add: example_simps)
  have primary: "fqdnTemplate ?sc = None \<and>
      fst (endpointsFromHttpProxy ?p ?k ?sc ?foo) = Inr (projr (fst (endpointsFromHttpProxy ?p ?k ?sc ?foo)))"
    by (simp add: model_simps example_simps)
  note inst = absent_controller_annotation_eligible [OF absent valid, of ?k ?sc]
  from inst primary
  have "fst (Endpoints_body ?p ?k ?sc ?foo) =
          Inr (setResourceLabel ?p ?foo (projr (fst (endpointsFromHttpProxy ?p ?k ?sc ?foo))))"
    by blast
  then have "map_sum id (map (\<lambda>ep. (DNSName ep, Targets ep, Labels ep ''resource'')))
       (fst (Endpoints_body ?p ?k ?sc ?foo)) = Inr [(''a.com'', [''1.2.3.4''], Some ''hp/default/foo'')]"
    by (simp add: model_simps example_simps)
  with inst absent show ?thesis by blast
qed

end
